theory Spec2Isabelle
  imports Main "HOL-Library.Char_ord" "HOL-Library.List_Lexorder" "HOL-Library.AList"
    "HOL-Library.Sublist"
begin

section \<open>Python values used by \<open>robotpy_build/hooks.py\<close>\<close>

text \<open>
  The hooks of \<open>robotpy_build/hooks.py\<close> enrich the dictionaries produced by the header
  parser. Python strings are modelled as \<^typ>\<open>string\<close>; identifiers of C++ headers are
  ASCII, and the two case operations the hooks use (\<open>str.isupper\<close>, \<open>str.lower\<close>) are
  modelled on the ASCII letters, every other character being uncased. A dictionary whose
  key order is observable (its keys are joined into a message) is an association list
  kept with \<^const>\<open>AList.update\<close> and \<^const>\<open>AList.delete\<close>, which are Python's
  \<open>d[k] = v\<close> and \<open>d.pop(k, None)\<close>. A raised exception is a value of \<open>error\<close>.

  The model covers \<open>_add_type_caster\<close>, \<open>_get_type_caster_includes\<close>, \<open>_set_name\<close>,
  \<open>_resolve_default\<close>, \<open>_get_function_signature\<close>, \<open>_enum_hook\<close>, \<open>_add_subpackage\<close>,
  \<open>_function_hook\<close> (as \<open>function_hook_core\<close>) and \<open>class_hook\<close>. A leading underscore
  of a Python name is dropped. The docstring keys of a function, which go through the
  external \<open>sphinxify\<close>, are not modelled.
\<close>

datatype error =
    ValueError string
  | IndexError
  | HookError string error

text \<open>Truthiness of an optional string: \<open>None\<close> and \<open>""\<close> are falsy.\<close>

fun truthy :: "string option \<Rightarrow> bool" where
  "truthy None = False"
| "truthy (Some s) = (s \<noteq> [])"

text \<open>\<open>name.startswith(pfx)\<close> and the slice \<open>name[len(pfx):]\<close>.\<close>

definition startswith :: "string \<Rightarrow> string \<Rightarrow> bool" where
  "startswith name pfx = (take (length pfx) name = pfx)"

definition slice_from :: "nat \<Rightarrow> string \<Rightarrow> string" where
  "slice_from n s = drop n s"

text \<open>\<open>s[0]\<close>: raises \<open>IndexError\<close> on the empty string.\<close>

fun index0 :: "string \<Rightarrow> error + char" where
  "index0 [] = Inl IndexError"
| "index0 (c # cs) = Inr c"

text \<open>\<open>s.find(c)\<close>: the index of the first occurrence of \<open>c\<close>, or \<open>-1\<close>.\<close>

fun str_find :: "string \<Rightarrow> char \<Rightarrow> int" where
  "str_find [] c = - 1"
| "str_find (x # xs) c =
     (if x = c then 0 else (let r = str_find xs c in if r = - 1 then - 1 else r + 1))"

text \<open>\<open>sep.join(xs)\<close>.\<close>

fun join :: "string \<Rightarrow> string list \<Rightarrow> string" where
  "join sep [] = []"
| "join sep [x] = x"
| "join sep (x # y # ys) = x @ sep @ join sep (y # ys)"

definition is_ascii_upper :: "char \<Rightarrow> bool" where
  "is_ascii_upper c = (65 \<le> (of_char c :: nat) \<and> (of_char c :: nat) \<le> 90)"

definition is_ascii_lower :: "char \<Rightarrow> bool" where
  "is_ascii_lower c = (97 \<le> (of_char c :: nat) \<and> (of_char c :: nat) \<le> 122)"

text \<open>\<open>s.isupper()\<close>: at least one cased character, and no cased character is lowercase.\<close>

definition isupper :: "string \<Rightarrow> bool" where
  "isupper s = (list_ex is_ascii_upper s \<and> \<not> list_ex is_ascii_lower s)"

text \<open>\<open>c.lower()\<close> for a one-character string.\<close>

definition lower :: "char \<Rightarrow> char" where
  "lower c = (if is_ascii_upper c then char_of ((of_char c :: nat) + 32) else c)"

section \<open>The \<open>Hooks\<close> object\<close>

text \<open>
  \<open>strip_prefixes\<close> is \<open>self.rawdata.strip_prefixes\<close> (\<open>None\<close> and the empty list are both
  \<open>[]\<close>: the code only tests its truth value), \<open>casters\<close> the name-to-header table handed
  to the constructor, \<open>types\<close> the set of recorded type names, \<open>class_hierarchy\<close> and
  \<open>subpackages\<close> the two dictionaries accumulated over a run.
\<close>

record Hooks =
  strip_prefixes :: "string list"
  casters :: "(string \<times> string) list"
  types :: "string set"
  class_hierarchy :: "(string \<times> string list) list"
  subpackages :: "(string \<times> string) list"

subsection \<open>\<open>_add_type_caster\<close> and \<open>_get_type_caster_includes\<close>\<close>

definition add_type_caster :: "Hooks \<Rightarrow> string \<Rightarrow> Hooks" where
  "add_type_caster h typename = h\<lparr>types := insert typename (types h)\<rparr>"

text \<open>
  One pass of the loop body of \<open>_get_type_caster_includes\<close>: the headers (none or one)
  that a recorded type name adds to \<open>includes\<close>.
\<close>

definition caster_header :: "(string \<times> string) list \<Rightarrow> string \<Rightarrow> string set" where
  "caster_header tbl typename =
     (let tmpl_idx = str_find typename (CHR ''<'');
          typename' = (if tmpl_idx \<noteq> - 1 then take (nat tmpl_idx) typename else typename)
      in case map_of tbl typename' of
           None \<Rightarrow> {}
         | Some header \<Rightarrow> (if header \<noteq> [] then {header} else {}))"

definition get_type_caster_includes :: "Hooks \<Rightarrow> string list" where
  "get_type_caster_includes h =
     sorted_list_of_set (\<Union>typename \<in> types h. caster_header (casters h) typename)"

subsection \<open>\<open>_set_name\<close>\<close>

text \<open>
  The \<open>for pfx in sp\<close> loop of \<open>_set_name\<close>: the first prefix the name starts with is cut
  off and the loop is left.
\<close>

fun strip_first_prefix :: "string list \<Rightarrow> string \<Rightarrow> string" where
  "strip_first_prefix [] name = name"
| "strip_first_prefix (pfx # sp) name =
     (if startswith name pfx then slice_from (length pfx) name
      else strip_first_prefix sp name)"

text \<open>
  \<open>_set_name(name, data)\<close> reads only \<open>data.rename\<close>, whatever the kind of \<open>data\<close>
  (function, class or enum data), so the model takes that field.
\<close>

definition set_name :: "Hooks \<Rightarrow> string \<Rightarrow> string option \<Rightarrow> string" where
  "set_name h name rename =
     (case rename of
        Some r \<Rightarrow> (if r \<noteq> [] then r else strip_first_prefix (strip_prefixes h) name)
      | None \<Rightarrow> strip_first_prefix (strip_prefixes h) name)"

subsection \<open>\<open>_enum_hook\<close>\<close>

record EnumValue =
  v_name :: string
  v_x_name :: "string option"

text \<open>
  Modelled from the spec: \<open>EnumData\<close>, the enum override record, whose module
  \<open>hooks_datacfg.py\<close> is missing. Of its fields the hooks read \<open>rename\<close>,
  \<open>value_prefix\<close> and \<open>subpackage\<close>, each optional.
\<close>

record EnumData =
  ed_rename :: "string option"
  ed_value_prefix :: "string option"
  ed_subpackage :: "string option"

record EnumDecl =
  en_name :: "string option"
  en_namespace :: string
  en_values :: "EnumValue list"
  en_x_name :: "string option"
  en_x_namespace :: "string option"
  en_x_module_var :: "string option"
  en_data :: "EnumData option"

text \<open>The body of the loop over \<open>en["values"]\<close>: the name stored in \<open>v["x_name"]\<close>.\<close>

definition enum_value_x_name :: "string option \<Rightarrow> string \<Rightarrow> error + string" where
  "enum_value_x_name value_prefix name =
     (case value_prefix of
        None \<Rightarrow> Inr name
      | Some pfx \<Rightarrow>
          (if pfx \<noteq> [] \<and> startswith name pfx then
             (let name' = slice_from (length pfx) name
              in case index0 name' of
                   Inl e \<Rightarrow> Inl e
                 | Inr c \<Rightarrow> (if c = CHR ''_'' then Inr (slice_from 1 name') else Inr name'))
           else Inr name))"

fun enum_values_loop :: "string option \<Rightarrow> EnumValue list \<Rightarrow> error + EnumValue list" where
  "enum_values_loop value_prefix [] = Inr []"
| "enum_values_loop value_prefix (v # vs) =
     (case enum_value_x_name value_prefix (v_name v) of
        Inl e \<Rightarrow> Inl e
      | Inr name \<Rightarrow>
          (case enum_values_loop value_prefix vs of
             Inl e \<Rightarrow> Inl e
           | Inr vs' \<Rightarrow> Inr (v\<lparr>v_x_name := Some name\<rparr> # vs')))"

text \<open>The value prefix \<open>_enum_hook\<close> works with: none for an unnamed enum.\<close>

definition enum_value_prefix :: "EnumDecl \<Rightarrow> EnumData \<Rightarrow> string option" where
  "enum_value_prefix en enum_data =
     (case en_name en of
        None \<Rightarrow> None
      | Some ename \<Rightarrow>
          (if ename \<noteq> [] then
             (if \<not> truthy (ed_value_prefix enum_data) then Some ename
              else ed_value_prefix enum_data)
           else None))"

definition enum_hook :: "Hooks \<Rightarrow> EnumDecl \<Rightarrow> EnumData \<Rightarrow> error + EnumDecl" where
  "enum_hook h en enum_data =
     (let value_prefix = enum_value_prefix en enum_data;
          en1 = (case en_name en of
                   None \<Rightarrow> en
                 | Some ename \<Rightarrow>
                     (if ename \<noteq> []
                      then en\<lparr>en_x_name := Some (set_name h ename (ed_rename enum_data))\<rparr>
                      else en))
      in case enum_values_loop value_prefix (en_values en1) of
           Inl e \<Rightarrow> Inl e
         | Inr vs \<Rightarrow> Inr (en1\<lparr>en_values := vs\<rparr>))"

section \<open>Functions: \<open>_function_hook\<close>\<close>

subsection \<open>More Python values\<close>

text \<open>The double quote, which a string literal cannot hold.\<close>

definition dq :: char where
  "dq = CHR 0x22"

text \<open>\<open>str(n)\<close> for an integer: decimal digits, with a minus sign.\<close>

fun str_of_nat :: "nat \<Rightarrow> string" where
  "str_of_nat n =
     (if n < 10 then [char_of (48 + n)] else str_of_nat (n div 10) @ [char_of (48 + n mod 10)])"

definition str_of_int :: "int \<Rightarrow> string" where
  "str_of_int i = (if i < 0 then CHR ''-'' # str_of_nat (nat (- i)) else str_of_nat (nat i))"

text \<open>
  A value that is an integer or a string, as a parameter's \<open>default\<close> and \<open>array_size\<close>
  are (floating-point defaults are left out). \<open>pyval_truthy\<close> is its truth value and
  \<open>pyval_str\<close> its \<open>%s\<close> formatting.
\<close>

datatype PyVal = PInt int | PStr string

fun pyval_truthy :: "PyVal \<Rightarrow> bool" where
  "pyval_truthy (PInt i) = (i \<noteq> 0)"
| "pyval_truthy (PStr s) = (s \<noteq> [])"

fun pyval_str :: "PyVal \<Rightarrow> string" where
  "pyval_str (PInt i) = str_of_int i"
| "pyval_str (PStr s) = s"

text \<open>\<open>s.replace(" >", ">")\<close>: every occurrence, left to right, without overlap.\<close>

fun replace_space_gt :: "string \<Rightarrow> string" where
  "replace_space_gt (a # b # cs) =
     (if a = CHR '' '' \<and> b = CHR ''>'' then CHR ''>'' # replace_space_gt cs
      else a # replace_space_gt (b # cs))"
| "replace_space_gt cs = cs"

text \<open>\<open>_gen_int_types\<close> and \<open>_int32_types\<close>.\<close>

definition gen_int_types :: "string list" where
  "gen_int_types =
     concat (map (\<lambda>i. concat (map (\<lambda>j. map (\<lambda>k. i @ j @ k @ ''_t'')
                                          [''8'', ''16'', ''32'', ''64''])
                                 ['''', ''_fast'', ''_least'']))
                 [''int'', ''uint''])
     @ [''intmax_t'', ''uintmax_t'']"

definition int32_types :: "string set" where
  "int32_types = set gen_int_types"

subsection \<open>Override records\<close>

text \<open>
  Modelled from the spec: \<open>BufferType\<close>, \<open>BufferData\<close>, \<open>ParamData\<close>,
  \<open>ReturnValuePolicy\<close> and \<open>FunctionData\<close>, whose module \<open>hooks_datacfg.py\<close> is
  missing. A buffer specification has a source parameter name, a length
  parameter name, a direction and an optional minimum size; the hooks compare the
  direction with \<open>BufferType.IN\<close> only. A parameter override holds the fields that were
  set (\<open>po.dict(exclude_unset=True)\<close>), each replacing the parameter's attribute of the
  same name. The return value policies are the keys of \<open>_rvp_map\<close>. Of the function
  override the hooks read the fields below.
\<close>

datatype BufferType = IN | OUT

record BufferData =
  buf_src :: string
  buf_len :: string
  buf_type :: BufferType
  buf_minsz :: "int option"

record ParamData =
  po_name :: "string option"
  po_x_type :: "string option"
  po_default :: "PyVal option"
  po_force_out :: "bool option"
  po_array_size :: "PyVal option"
  po_ignore :: "bool option"

datatype ReturnValuePolicy =
    TAKE_OWNERSHIP | COPY | MOVE | REFERENCE | REFERENCE_INTERNAL | AUTOMATIC
  | AUTOMATIC_REFERENCE

record FunctionData =
  fd_rename :: "string option"
  fd_ignore :: bool
  fd_internal :: bool
  fd_no_release_gil :: "bool option"
  fd_cpp_code :: "string option"
  fd_param_override :: "(string \<times> ParamData) list"
  fd_buffers :: "BufferData list"
  fd_return_value_policy :: ReturnValuePolicy
  fd_keepalive :: "(nat \<times> nat) list option"
  fd_subpackage :: "string option"

fun rvp_map :: "ReturnValuePolicy \<Rightarrow> string" where
  "rvp_map TAKE_OWNERSHIP = '', py::return_value_policy::take_ownership''"
| "rvp_map COPY = '', py::return_value_policy::copy''"
| "rvp_map MOVE = '', py::return_value_policy::move''"
| "rvp_map REFERENCE = '', py::return_value_policy::reference''"
| "rvp_map REFERENCE_INTERNAL = '', py::return_value_policy::reference_internal''"
| "rvp_map AUTOMATIC = ''''"
| "rvp_map AUTOMATIC_REFERENCE = '', py::return_value_policy::automatic_reference''"

subsection \<open>Parsed declarations\<close>

text \<open>
  A parameter dictionary of the header parser. The counts \<open>reference\<close>, \<open>pointer\<close>,
  \<open>constant\<close> and \<open>array\<close> are tested for being non-zero; \<open>enum\<close>, \<open>array_size\<close>, \<open>default\<close>,
  \<open>force_out\<close> and \<open>ignore\<close> are keys that may be absent. \<open>p_class\<close> stands for
  \<open>p["class"]\<close>: the identity of the class object the parameter's type resolved to, if
  any. The \<open>x_\<close> keys are written by the hook, whatever they held before.
\<close>

record Param =
  p_name :: string
  p_raw_type :: string
  p_enum :: "string option"
  p_reference :: nat
  p_pointer :: nat
  p_constant :: nat
  p_fundamental :: bool
  p_unresolved :: bool
  p_array :: nat
  p_array_size :: "PyVal option"
  p_default :: "PyVal option"
  p_force_out :: "bool option"
  p_ignore :: "bool option"
  p_class :: "nat option"
  p_x_type :: string
  p_x_callname :: string
  p_x_retname :: string
  p_x_pyarg :: string
  p_x_type_full :: string
  p_x_decl :: string

text \<open>
  An entry of \<open>x_rets\<close>: the dictionary made for the primary return value (its
  \<open>x_retname\<close> and \<open>x_type\<close>), or an out-parameter.
\<close>

datatype Ret = RetValue string string | RetParam Param

fun ret_x_retname :: "Ret \<Rightarrow> string" where
  "ret_x_retname (RetValue retname ty) = retname"
| "ret_x_retname (RetParam p) = p_x_retname p"

fun ret_x_type :: "Ret \<Rightarrow> string" where
  "ret_x_type (RetValue retname ty) = ty"
| "ret_x_type (RetParam p) = p_x_type p"

text \<open>
  What \<open>_resolve_default\<close> reads of \<open>fn["parent"]\<close>: the enclosing class's namespace, its
  name and the names of its public properties.
\<close>

record FnParent =
  par_namespace :: string
  par_name :: string
  par_public_properties :: "string list"

text \<open>
  The keys that \<open>fn.update\<close> binds at the end of \<open>_function_hook\<close> (the two docstring
  keys, which go through the external \<open>sphinxify\<close>, are left out; \<open>data\<close> is
  \<open>fn_data\<close> below).
\<close>

record FunctionX =
  x_name :: string
  x_all_params :: "Param list"
  x_in_params :: "Param list"
  x_out_params :: "Param list"
  x_rets :: "Ret list"
  x_keepalives :: "(nat \<times> nat) list"
  x_return_value_policy :: string
  x_genlambda :: bool
  x_callstart :: string
  x_lambda_pre :: "string list"
  x_lambda_post :: "string list"
  x_callend :: string
  x_wrap_return :: string

record FunctionDecl =
  fn_name :: string
  fn_returns :: string
  fn_rtnType :: string
  fn_constructor :: bool
  fn_destructor :: bool
  fn_operator :: bool
  fn_override :: bool
  fn_virtual :: bool
  fn_const :: bool
  fn_parameters :: "Param list"
  fn_parent :: "FnParent option"
  fn_data :: "FunctionData option"
  fn_x :: "FunctionX option"

subsection \<open>\<open>_resolve_default\<close> and \<open>_get_function_signature\<close>\<close>

text \<open>
  \<open>_resolve_default\<close>: a number is formatted, \<open>NULL\<close> and \<open>nullptr\<close> pass, and any other
  name is compared with each public property of the enclosing class in turn, and
  qualified when it is one.
\<close>

fun resolve_default :: "FunctionDecl \<Rightarrow> PyVal \<Rightarrow> string" where
  "resolve_default fn (PInt i) = str_of_int i"
| "resolve_default fn (PStr name) =
     (if name = ''NULL'' \<or> name = ''nullptr'' then name
      else case fn_parent fn of
             None \<Rightarrow> name
           | Some parent \<Rightarrow>
               foldl (\<lambda>name prop.
                        if prop = name
                        then par_namespace parent @ ''::'' @ par_name parent @ ''::'' @ name
                        else name)
                     name (par_public_properties parent))"

definition get_function_signature :: "FunctionDecl \<Rightarrow> string" where
  "get_function_signature fn =
     (let param_sig = join '', ''
            (map (\<lambda>p. (case p_enum p of Some e \<Rightarrow> e | None \<Rightarrow> p_raw_type p)
                       @ replicate (p_reference p) (CHR ''&'')
                       @ replicate (p_pointer p) (CHR ''*''))
                 (fn_parameters fn));
          param_sig = replace_space_gt param_sig
      in if fn_const fn
         then (if param_sig \<noteq> [] then param_sig @ '' [const]'' else ''[const]'')
         else param_sig)"

subsection \<open>The name of a function (lines 181 to 183)\<close>

text \<open>
  \<open>x_name = self._set_name(fn["name"], data)\<close>, then the first character is lowered
  unless there is a rename or the first two characters are upper case. \<open>x_name[0]\<close>
  raises \<open>IndexError\<close> when the name is empty.
\<close>

definition function_x_name :: "Hooks \<Rightarrow> string \<Rightarrow> string option \<Rightarrow> error + string" where
  "function_x_name h name rename =
     (let x_name = set_name h name rename
      in if \<not> truthy rename \<and> \<not> isupper (take 2 x_name) then
           (case index0 x_name of
              Inl e \<Rightarrow> Inl e
            | Inr c \<Rightarrow> Inr (lower c # slice_from 1 x_name))
         else Inr x_name)"

subsection \<open>The buffer dictionaries (lines 210 to 219)\<close>

type_synonym buffer_dict = "(string \<times> BufferData) list"

fun buffers_loop ::
  "BufferData list \<Rightarrow> buffer_dict \<Rightarrow> buffer_dict \<Rightarrow> error + (buffer_dict \<times> buffer_dict)"
where
  "buffers_loop [] buffer_params buflen_params = Inr (buffer_params, buflen_params)"
| "buffers_loop (bufinfo # rest) buffer_params buflen_params =
     (if buf_src bufinfo = buf_len bufinfo then
        Inl (ValueError (''buffer src('' @ buf_src bufinfo @ '') and len(''
                          @ buf_len bufinfo @ '') cannot be the same''))
      else buffers_loop rest
             (AList.update (buf_src bufinfo) bufinfo buffer_params)
             (AList.update (buf_len bufinfo) bufinfo buflen_params))"

subsection \<open>The loop over the parameters (lines 225 to 332)\<close>

text \<open>
  The locals of \<open>_function_hook\<close> that the loop reads and writes, with \<open>self\<close> (for
  \<open>self.types\<close>) and \<open>l_params\<close>, the parameters processed so far as the loop left them.
\<close>

record ParamLoop =
  buffer_params :: buffer_dict
  buflen_params :: buffer_dict
  l_in_params :: "Param list"
  l_out_params :: "Param list"
  l_all_params :: "Param list"
  l_temps :: "Param list"
  l_keepalives :: "(nat \<times> nat) list"
  l_genlambda :: bool
  l_lambda_pre :: "string list"
  l_self :: Hooks
  l_params :: "Param list"

datatype PType = PIn | POut | PIgnored

text \<open>\<open>p.update(po.dict(exclude_unset=True))\<close>.\<close>

definition param_update :: "Param \<Rightarrow> ParamData \<Rightarrow> Param" where
  "param_update p po =
     (let p = (case po_name po of Some v \<Rightarrow> p\<lparr>p_name := v\<rparr> | None \<Rightarrow> p);
          p = (case po_x_type po of Some v \<Rightarrow> p\<lparr>p_x_type := v\<rparr> | None \<Rightarrow> p);
          p = (case po_default po of Some v \<Rightarrow> p\<lparr>p_default := Some v\<rparr> | None \<Rightarrow> p);
          p = (case po_force_out po of Some v \<Rightarrow> p\<lparr>p_force_out := Some v\<rparr> | None \<Rightarrow> p);
          p = (case po_array_size po of Some v \<Rightarrow> p\<lparr>p_array_size := Some v\<rparr> | None \<Rightarrow> p);
          p = (case po_ignore po of Some v \<Rightarrow> p\<lparr>p_ignore := Some v\<rparr> | None \<Rightarrow> p)
      in p)"

text \<open>
  Lines 227 to 248: keep-alive of a constructor's reference parameter, the integer
  types, the placeholder name, the \<open>x_\<close> names, the override, \<open>x_pyarg\<close> and the default.
\<close>

definition param_prepare :: "FunctionDecl \<Rightarrow> FunctionData \<Rightarrow> nat \<Rightarrow> Param \<Rightarrow> Param" where
  "param_prepare fn data i p =
     (let p = (if p_raw_type p \<in> int32_types
               then p\<lparr>p_fundamental := True, p_unresolved := False\<rparr> else p);
          p = (if p_name p = [] then p\<lparr>p_name := ''param'' @ str_of_nat i\<rparr> else p);
          p = p\<lparr>p_x_type := (case p_enum p of Some e \<Rightarrow> e | None \<Rightarrow> p_raw_type p)\<rparr>;
          p = p\<lparr>p_x_callname := p_name p\<rparr>;
          p = p\<lparr>p_x_retname := p_name p\<rparr>;
          p = (case map_of (fd_param_override data) (p_name p) of
                 Some po \<Rightarrow> param_update p po
               | None \<Rightarrow> p);
          p = p\<lparr>p_x_pyarg := ''py::arg('' @ [dq] @ p_name p @ [dq] @ '')''\<rparr>
      in case p_default p of
           None \<Rightarrow> p
         | Some d \<Rightarrow>
             (let d' = resolve_default fn d
              in p\<lparr>p_default := Some (PStr d'), p_x_pyarg := p_x_pyarg p @ ''='' @ d'\<rparr>))"

text \<open>
  Lines 250 to 311: the role of the parameter. The result is \<open>ptype\<close>, whether the
  parameter was appended to \<open>x_temps\<close> in the branch of a length that is not a pointer,
  the parameter and the locals.
\<close>

definition param_role ::
  "BufferData option \<Rightarrow> BufferData option \<Rightarrow> Param \<Rightarrow> ParamLoop
     \<Rightarrow> PType \<times> bool \<times> Param \<times> ParamLoop"
where
  "param_role bufinfo buflen p st =
     (case bufinfo of
        Some b \<Rightarrow>
          (let bname = ''__'' @ buf_src b;
               p' = p\<lparr>p_constant := 1, p_reference := 1, p_pointer := 0,
                      p_x_callname := ''('' @ p_x_type p @ ''*)'' @ bname @ ''.ptr'',
                      p_x_type := ''py::buffer''\<rparr>;
               pre = l_lambda_pre st
                     @ [''auto '' @ bname @ '' = '' @ p_name p
                        @ (if buf_type b = IN then ''.request(false)'' else ''.request(true)'')];
               pre = pre @ [buf_len b @ '' = '' @ bname @ ''.size * '' @ bname @ ''.itemsize''];
               pre = (case buf_minsz b of
                        None \<Rightarrow> pre
                      | Some minsz \<Rightarrow>
                          (if minsz \<noteq> 0 then
                             pre @ [''if ('' @ buf_len b @ '' < '' @ str_of_int minsz
                                    @ '') throw py::value_error('' @ [dq] @ p_name p
                                    @ '': minimum buffer size is '' @ str_of_int minsz
                                    @ [dq] @ '')'']
                           else pre))
           in (PIn, False, p', st\<lparr>l_genlambda := True, l_lambda_pre := pre\<rparr>))
      | None \<Rightarrow>
          (case buflen of
             Some bl \<Rightarrow>
               (if p_pointer p \<noteq> 0
                then (POut, False, p\<lparr>p_x_callname := ''&'' @ buf_len bl\<rparr>, st)
                else (PIgnored, True, p\<lparr>p_x_callname := buf_len bl\<rparr>, st))
           | None \<Rightarrow>
               (if p_force_out p = Some True
                   \<or> (p_pointer p \<noteq> 0 \<and> p_constant p = 0 \<and> p_fundamental p)
                then (POut, False, p\<lparr>p_x_callname := ''&'' @ p_x_callname p\<rparr>, st)
                else if p_array p \<noteq> 0 then
                  (case p_array_size p of
                     None \<Rightarrow> (POut, False, p, st)
                   | Some asz \<Rightarrow>
                       (if pyval_truthy asz then
                          (let p' = p\<lparr>p_x_type := ''std::array<'' @ p_x_type p @ '', ''
                                                     @ pyval_str asz @ ''>''\<rparr>
                           in (POut, False,
                               p'\<lparr>p_x_callname := p_x_callname p' @ ''.data()''\<rparr>, st))
                        else (POut, False, p, st)))
                else (PIn, False, p, st))))"

text \<open>
  Lines 323 to 332: \<open>x_type\<close> is recorded before it gets its \<open>const\<close>; then \<open>x_type_full\<close>
  and \<open>x_decl\<close>.
\<close>

definition param_finish :: "Param \<Rightarrow> Param" where
  "param_finish p =
     (let p = (if p_constant p \<noteq> 0 then p\<lparr>p_x_type := ''const '' @ p_x_type p\<rparr> else p);
          p = p\<lparr>p_x_type_full := p_x_type p @ replicate (p_reference p) (CHR ''&'')
                                  @ replicate (p_pointer p) (CHR ''*'')\<rparr>
      in p\<lparr>p_x_decl := p_x_type_full p @ '' '' @ p_name p\<rparr>)"

text \<open>
  One iteration. The lists hold references to the dictionary \<open>p\<close>, which the iteration
  goes on mutating after it has appended it; what a list holds at the end is therefore
  the parameter as the iteration leaves it, \<open>param_finish\<close> applied.
\<close>

definition classify_param ::
  "FunctionDecl \<Rightarrow> FunctionData \<Rightarrow> ParamLoop \<Rightarrow> nat \<times> Param \<Rightarrow> ParamLoop"
where
  "classify_param fn data st ip =
     (let i = fst ip; p = snd ip;
          st = (if fn_constructor fn \<and> p_reference p \<noteq> 0
                then st\<lparr>l_keepalives := l_keepalives st @ [(1, i + 2)]\<rparr> else st);
          p = param_prepare fn data i p;
          bufinfo = map_of (buffer_params st) (p_name p);
          st = st\<lparr>buffer_params := AList.delete (p_name p) (buffer_params st)\<rparr>;
          buflen = map_of (buflen_params st) (p_name p);
          st = st\<lparr>buflen_params := AList.delete (p_name p) (buflen_params st)\<rparr>;
          (ptype, temp, p, st) = param_role bufinfo buflen p st;
          p_end = param_finish p;
          st = (if temp then st\<lparr>l_temps := l_temps st @ [p_end]\<rparr> else st);
          st = (if p_ignore p = Some True then st
                else (let st = st\<lparr>l_all_params := l_all_params st @ [p_end]\<rparr>
                      in if ptype = POut then
                           st\<lparr>l_out_params := l_out_params st @ [p_end],
                              l_temps := l_temps st @ [p_end]\<rparr>
                         else if ptype = PIn then
                           st\<lparr>l_in_params := l_in_params st @ [p_end]\<rparr>
                         else st));
          st = st\<lparr>l_self := add_type_caster (l_self st) (p_x_type p)\<rparr>
      in st\<lparr>l_params := l_params st @ [p_end]\<rparr>)"

text \<open>\<open>enumerate(fn["parameters"])\<close>.\<close>

definition enumerate_from0 :: "'a list \<Rightarrow> (nat \<times> 'a) list" where
  "enumerate_from0 xs = zip [0 ..< length xs] xs"

definition param_loop :: "FunctionDecl \<Rightarrow> FunctionData \<Rightarrow> ParamLoop \<Rightarrow> ParamLoop" where
  "param_loop fn data st = foldl (classify_param fn data) st (enumerate_from0 (fn_parameters fn))"

subsection \<open>Return values, temporaries and the final name (lines 345 to 373)\<close>

definition return_aggregate :: "string \<Rightarrow> Param list \<Rightarrow> Ret list" where
  "return_aggregate rtnType out_params =
     (let rets = (if out_params \<noteq> [] then map RetParam out_params else [])
      in if rtnType \<noteq> ''void'' then RetValue ''__ret'' rtnType # rets else rets)"

definition wrap_return :: "Ret list \<Rightarrow> string" where
  "wrap_return rets =
     (if length rets = 1 \<and> ret_x_type (hd rets) \<noteq> ''void''
      then ''return '' @ ret_x_retname (hd rets) @ '';''
      else if length rets > 1
      then ''return std::make_tuple('' @ join '','' (map ret_x_retname rets) @ '');''
      else '''')"

text \<open>\<open>for out in reversed(x_temps): x_lambda_pre.insert(0, ...)\<close>.\<close>

definition declare_temps :: "Param list \<Rightarrow> string list \<Rightarrow> string list" where
  "declare_temps temps pre =
     foldl (\<lambda>pre out. (p_x_type out @ '' '' @ p_name out @ '' = 0'') # pre) pre (rev temps)"

definition final_x_name :: "FunctionDecl \<Rightarrow> FunctionData \<Rightarrow> bool \<Rightarrow> string \<Rightarrow> string" where
  "final_x_name fn data internal name =
     (let other = (if fd_internal data \<or> internal then ''_'' @ name
                   else if fn_constructor fn then ''__init__''
                   else name)
      in case fd_rename data of
           Some r \<Rightarrow> (if r \<noteq> [] then r else other)
         | None \<Rightarrow> other)"

text \<open>
  Lines 340 to 421, reached when no buffer name is left over: the values bound to \<open>fn\<close>
  by \<open>fn.update\<close>, computed from the locals the loop left and the name of lines 181 to
  183.
\<close>

definition function_update ::
  "FunctionDecl \<Rightarrow> FunctionData \<Rightarrow> bool \<Rightarrow> string \<Rightarrow> ParamLoop \<Rightarrow> FunctionDecl"
where
  "function_update fn data internal name st =
     (let rets = return_aggregate (fn_rtnType fn) (l_out_params st)
      in fn\<lparr>fn_data := Some data,
            fn_x := Some
              \<lparr>x_name = final_x_name fn data internal name,
               x_all_params = l_all_params st,
               x_in_params = l_in_params st,
               x_out_params = l_out_params st,
               x_rets = rets,
               x_keepalives =
                 (case fd_keepalive data of Some k \<Rightarrow> k | None \<Rightarrow> l_keepalives st),
               x_return_value_policy = rvp_map (fd_return_value_policy data),
               x_genlambda = (l_genlambda st \<or> l_out_params st \<noteq> []),
               x_callstart = (if fn_rtnType fn \<noteq> ''void'' then ''auto __ret ='' else ''''),
               x_lambda_pre = declare_temps (l_temps st) (l_lambda_pre st),
               x_lambda_post = [],
               x_callend = '''',
               x_wrap_return = wrap_return rets\<rparr>\<rparr>)"

subsection \<open>\<open>_function_hook\<close>\<close>

text \<open>Lines 187 to 189: \<open>data.no_release_gil\<close> is set when \<open>cpp_code\<close> is given.\<close>

definition no_release_gil_set :: "FunctionData \<Rightarrow> FunctionData" where
  "no_release_gil_set data =
     (if fd_no_release_gil data = None \<and> truthy (fd_cpp_code data)
      then data\<lparr>fd_no_release_gil := Some True\<rparr> else data)"

text \<open>The locals as they are when the loop over the parameters starts.\<close>

definition loop_locals :: "buffer_dict \<Rightarrow> buffer_dict \<Rightarrow> Hooks \<Rightarrow> ParamLoop" where
  "loop_locals bp blp h =
     \<lparr>buffer_params = bp, buflen_params = blp, l_in_params = [], l_out_params = [],
      l_all_params = [], l_temps = [], l_keepalives = [], l_genlambda = False,
      l_lambda_pre = [], l_self = h, l_params = []\<rparr>"

text \<open>The message of the \<open>ValueError\<close> of line 335.\<close>

definition incorrect_buffer_names :: "buffer_dict \<Rightarrow> string" where
  "incorrect_buffer_names bp =
     ''incorrect buffer param names '' @ [CHR 0x27]
     @ join ([CHR 0x27] @ '', '' @ [CHR 0x27]) (map fst bp) @ [CHR 0x27]"

text \<open>
  The hook mutates \<open>self\<close> and \<open>fn\<close> in place and may raise: the result is what was
  raised, if anything, with \<open>self\<close> and \<open>fn\<close> as they are at that moment. The one
  mutation of \<open>data\<close> (\<open>no_release_gil\<close>) shows in \<open>fn_data\<close>.
\<close>

definition function_hook_core ::
  "Hooks \<Rightarrow> FunctionDecl \<Rightarrow> FunctionData \<Rightarrow> bool \<Rightarrow> error option \<times> Hooks \<times> FunctionDecl"
where
  "function_hook_core h fn data internal =
     (case function_x_name h (fn_name fn) (fd_rename data) of
        Inl e \<Rightarrow> (Some e, h, fn)
      | Inr name \<Rightarrow>
          (let data = no_release_gil_set data
           in case buffers_loop (fd_buffers data) [] [] of
                Inl e \<Rightarrow> (Some e, h, fn)
              | Inr (bp, blp) \<Rightarrow>
                  (let h = add_type_caster h (fn_returns fn);
                       st = param_loop fn data (loop_locals bp blp h);
                       fn = fn\<lparr>fn_parameters := l_params st\<rparr>
                   in if buffer_params st \<noteq> [] then
                        (Some (ValueError (incorrect_buffer_names (buffer_params st))),
                         l_self st, fn)
                      else (None, l_self st, function_update fn data internal name st))))"

section \<open>Classes: \<open>class_hook\<close>\<close>

subsection \<open>Override records and the generator data\<close>

text \<open>
  Modelled from the spec: \<open>ClassData\<close>, \<open>PropData\<close> and \<open>PropAccess\<close> of
  \<open>hooks_datacfg.py\<close>, the records \<open>FunctionData()\<close>, \<open>ClassData()\<close> and \<open>PropData()\<close> built
  with every field at its default, and the override registry \<open>GeneratorData\<close> of
  \<open>generator_data.py\<close>; both modules are missing. Of the class and
  property overrides the hooks read the fields below. The registry is a lookup of the
  override record by qualified key (and signature, for a function); its record of the
  symbols that were missing is left out.
\<close>

record ClassData =
  cd_rename :: "string option"
  cd_ignore :: bool
  cd_subpackage :: "string option"
  cd_ignored_bases :: "string list"
  cd_base_qualnames :: "(string \<times> string) list"
  cd_force_depends :: "string list"
  cd_is_polymorphic :: bool
  cd_force_no_trampoline :: bool

datatype PropAccess = PropAccess_AUTOMATIC | PropAccess_READONLY | PropAccess_READWRITE

record PropData =
  pd_rename :: "string option"
  pd_ignore :: bool
  pd_access :: PropAccess

definition FunctionData_default :: FunctionData where
  "FunctionData_default =
     \<lparr>fd_rename = None, fd_ignore = False, fd_internal = False, fd_no_release_gil = None,
      fd_cpp_code = None, fd_param_override = [], fd_buffers = [],
      fd_return_value_policy = AUTOMATIC, fd_keepalive = None, fd_subpackage = None\<rparr>"

definition ClassData_default :: ClassData where
  "ClassData_default =
     \<lparr>cd_rename = None, cd_ignore = False, cd_subpackage = None, cd_ignored_bases = [],
      cd_base_qualnames = [], cd_force_depends = [], cd_is_polymorphic = False,
      cd_force_no_trampoline = False\<rparr>"

definition PropData_default :: PropData where
  "PropData_default = \<lparr>pd_rename = None, pd_ignore = False, pd_access = PropAccess_AUTOMATIC\<rparr>"

record GeneratorData =
  get_class_data :: "string \<Rightarrow> ClassData"
  get_cls_enum_data :: "string option \<Rightarrow> string \<Rightarrow> ClassData \<Rightarrow> EnumData"
  get_function_data :: "FunctionDecl \<Rightarrow> string \<Rightarrow> string \<Rightarrow> ClassData \<Rightarrow> FunctionData"
  get_cls_prop_data :: "string \<Rightarrow> string \<Rightarrow> ClassData \<Rightarrow> PropData"

subsection \<open>Parsed classes\<close>

record Base =
  base_class :: string
  base_x_qualname :: string
  base_x_qualname_u :: string

record Property =
  prop_name :: string
  prop_raw_type :: string
  prop_fundamental :: bool
  prop_reference :: nat
  prop_data :: "PropData option"
  prop_x_name :: "string option"
  prop_x_readonly :: "bool option"

text \<open>The keys that \<open>class_hook\<close> computes for a class it does not ignore.\<close>

record ClassX =
  cls_x_inherits :: "Base list"
  cls_x_qualname :: string
  cls_x_qualname_u :: string
  cls_x_has_trampoline :: bool
  cls_x_trampoline_name :: "string option"
  cls_x_has_constructor :: bool
  cls_x_varname :: string
  cls_x_name :: string

text \<open>
  A class dictionary. \<open>cls_parent_names\<close> holds the names found by following
  \<open>cls["parent"]\<close> outwards (empty when \<open>parent\<close> is \<open>None\<close>), and \<open>cls_id\<close> is the identity
  of the dictionary, which \<open>fn["parameters"][0]["class"] is cls\<close> compares.
\<close>

record ClassDecl =
  cls_name :: string
  cls_namespace :: string
  cls_parent_names :: "string list"
  cls_access_in_parent :: string
  cls_final :: bool
  cls_inherits :: "Base list"
  cls_enums_public :: "EnumDecl list"
  cls_methods_public :: "FunctionDecl list"
  cls_methods_protected :: "FunctionDecl list"
  cls_methods_private :: "FunctionDecl list"
  cls_properties_public :: "Property list"
  cls_properties_protected :: "Property list"
  cls_properties_private :: "Property list"
  cls_id :: nat
  cls_data :: "ClassData option"
  cls_x_module_var :: "string option"
  cls_x :: "ClassX option"

datatype Access = Public | Protected | Private

subsection \<open>Names\<close>

text \<open>\<open>s.translate(self._qualname_trans)\<close>: each of \<open>:\<close>, \<open><\<close>, \<open>>\<close>, \<open>=\<close> becomes \<open>_\<close>.\<close>

definition qualname_bad :: string where
  "qualname_bad = '':<>=''"

definition qualname_translate :: "string \<Rightarrow> string" where
  "qualname_translate s = map (\<lambda>c. if c \<in> set qualname_bad then CHR ''_'' else c) s"

text \<open>\<open>"::" in s\<close>.\<close>

fun has_scope :: "string \<Rightarrow> bool" where
  "has_scope (a # b # cs) = ((a = CHR '':'' \<and> b = CHR '':'') \<or> has_scope (b # cs))"
| "has_scope cs = False"

text \<open>\<open>s.replace(".", "_")\<close>.\<close>

definition replace_dot :: "string \<Rightarrow> string" where
  "replace_dot s = map (\<lambda>c. if c = CHR ''.'' then CHR ''_'' else c) s"

text \<open>\<open>_add_subpackage\<close>: the new \<open>self\<close> and the value of \<open>v["x_module_var"]\<close>.\<close>

definition add_subpackage :: "Hooks \<Rightarrow> string option \<Rightarrow> Hooks \<times> string" where
  "add_subpackage h subpackage =
     (case subpackage of
        None \<Rightarrow> (h, ''m'')
      | Some sp \<Rightarrow>
          (if sp \<noteq> [] then
             (let var = ''pkg_'' @ replace_dot sp
              in (h\<lparr>subpackages := AList.update sp var (subpackages h)\<rparr>, var))
           else (h, ''m'')))"

text \<open>The \<open>while c["parent"]\<close> loop that builds \<open>cls_key\<close>.\<close>

definition class_key :: "ClassDecl \<Rightarrow> string" where
  "class_key cls =
     foldl (\<lambda>cls_key c_name. c_name @ ''::'' @ cls_key) (cls_name cls) (cls_parent_names cls)"

subsection \<open>Enums of the class (lines 459 to 466)\<close>

fun class_enums_loop ::
  "Hooks \<Rightarrow> GeneratorData \<Rightarrow> string \<Rightarrow> string \<Rightarrow> ClassData \<Rightarrow> EnumDecl list
     \<Rightarrow> error + EnumDecl list"
where
  "class_enums_loop h gendata name cls_key class_data [] = Inr []"
| "class_enums_loop h gendata name cls_key class_data (e # es) =
     (let e = e\<lparr>en_x_namespace := Some (en_namespace e @ ''::'' @ name @ ''::'')\<rparr>;
          enum_data = get_cls_enum_data gendata (en_name e) cls_key class_data;
          e = e\<lparr>en_data := Some enum_data\<rparr>
      in case enum_hook h e enum_data of
           Inl err \<Rightarrow> Inl err
         | Inr e' \<Rightarrow>
             (case class_enums_loop h gendata name cls_key class_data es of
                Inl err \<Rightarrow> Inl err
              | Inr es' \<Rightarrow> Inr (e' # es')))"

subsection \<open>Bases (lines 469 to 501)\<close>

definition base_qualify :: "ClassData \<Rightarrow> string \<Rightarrow> Base \<Rightarrow> Base" where
  "base_qualify class_data namespace base =
     (let unmapped = (if \<not> has_scope (base_class base)
                      then namespace @ ''::'' @ base_class base
                      else base_class base);
          base = (case map_of (cd_base_qualnames class_data) (base_class base) of
                    Some bqual \<Rightarrow>
                      (if bqual \<noteq> [] then base\<lparr>base_x_qualname := bqual\<rparr>
                       else base\<lparr>base_x_qualname := unmapped\<rparr>)
                  | None \<Rightarrow> base\<lparr>base_x_qualname := unmapped\<rparr>)
      in base\<lparr>base_x_qualname_u := qualname_translate (base_x_qualname base)\<rparr>)"

text \<open>\<open>{ib: True for ib in class_data.ignored_bases}\<close>.\<close>

definition ignored_bases_dict :: "string list \<Rightarrow> (string \<times> bool) list" where
  "ignored_bases_dict names = foldl (\<lambda>d ib. AList.update ib True d) [] names"

text \<open>
  The list comprehension of \<open>x_inherits\<close>: a base is kept unless
  \<open>ignored_bases.pop(base["class"], None)\<close> is true, and the pop takes the name out of
  the dictionary. The result is the list and what is left of the dictionary.
\<close>

fun pop_ignored_bases ::
  "Base list \<Rightarrow> (string \<times> bool) list \<Rightarrow> Base list \<times> (string \<times> bool) list"
where
  "pop_ignored_bases [] ignored_bases = ([], ignored_bases)"
| "pop_ignored_bases (base # bases) ignored_bases =
     (let popped = map_of ignored_bases (base_class base);
          ignored_bases = AList.delete (base_class base) ignored_bases;
          (kept, left) = pop_ignored_bases bases ignored_bases
      in if popped = Some True then (kept, left) else (base # kept, left))"

definition class_x_inherits :: "string \<Rightarrow> ClassData \<Rightarrow> Base list \<Rightarrow> error + Base list" where
  "class_x_inherits name class_data inherits =
     (let ignored_bases = ignored_bases_dict (cd_ignored_bases class_data);
          (x_inherits, ignored_bases) = pop_ignored_bases inherits ignored_bases
      in if ignored_bases \<noteq> [] then
           (let bases = join '', '' (map base_class inherits);
                invalid_bases = join '', '' (map fst ignored_bases)
            in Inl (ValueError (name @ '': ignored_bases contains non-existant bases ''
                                 @ invalid_bases @ ''; valid bases are '' @ bases)))
         else Inr x_inherits)"

subsection \<open>Methods (lines 503 to 547)\<close>

text \<open>The locals that the loop over the methods carries, and \<open>self\<close>.\<close>

record MethodLoop =
  m_has_constructor :: bool
  m_is_polymorphic :: bool
  m_self :: Hooks

definition method_step ::
  "GeneratorData \<Rightarrow> ClassDecl \<Rightarrow> string \<Rightarrow> ClassData \<Rightarrow> Access \<Rightarrow> MethodLoop \<Rightarrow> FunctionDecl
     \<Rightarrow> error + (MethodLoop \<times> FunctionDecl)"
where
  "method_step gendata cls cls_key class_data access st fn =
     (let st = (if fn_constructor fn then st\<lparr>m_has_constructor := True\<rparr> else st);
          st = (if fn_override fn \<or> fn_virtual fn then st\<lparr>m_is_polymorphic := True\<rparr> else st)
      in if fn_operator fn \<or> fn_destructor fn
            \<or> (fn_constructor fn \<and> fn_parameters fn \<noteq> []
                \<and> p_class (hd (fn_parameters fn)) = Some (cls_id cls))
         then Inr (st, fn\<lparr>fn_data := Some (FunctionData_default\<lparr>fd_ignore := True\<rparr>)\<rparr>)
         else if access \<noteq> Private then
           (let internal = (access \<noteq> Public);
                signature = get_function_signature fn;
                method_data = get_function_data gendata fn signature cls_key class_data
            in if fd_ignore method_data then Inr (st, fn\<lparr>fn_data := Some method_data\<rparr>)
               else (case function_hook_core (m_self st) fn method_data internal of
                       (Some e, h', fn') \<Rightarrow> Inl (HookError (cls_key @ ''::'' @ fn_name fn) e)
                     | (None, h', fn') \<Rightarrow> Inr (st\<lparr>m_self := h'\<rparr>, fn')))
         else Inr (st, fn))"

fun methods_loop ::
  "GeneratorData \<Rightarrow> ClassDecl \<Rightarrow> string \<Rightarrow> ClassData \<Rightarrow> Access \<Rightarrow> MethodLoop
     \<Rightarrow> FunctionDecl list \<Rightarrow> error + (MethodLoop \<times> FunctionDecl list)"
where
  "methods_loop gendata cls cls_key class_data access st [] = Inr (st, [])"
| "methods_loop gendata cls cls_key class_data access st (fn # fns) =
     (case method_step gendata cls cls_key class_data access st fn of
        Inl e \<Rightarrow> Inl e
      | Inr (st, fn') \<Rightarrow>
          (case methods_loop gendata cls cls_key class_data access st fns of
             Inl e \<Rightarrow> Inl e
           | Inr (st, fns') \<Rightarrow> Inr (st, fn' # fns')))"

subsection \<open>Properties (lines 552 to 581)\<close>

definition property_step ::
  "GeneratorData \<Rightarrow> string \<Rightarrow> ClassData \<Rightarrow> bool \<Rightarrow> Access \<Rightarrow> Hooks \<Rightarrow> Property
     \<Rightarrow> Hooks \<times> Property"
where
  "property_step gendata cls_key class_data has_trampoline access h v =
     (if access = Private \<or> (access = Protected \<and> \<not> has_trampoline)
      then (h, v\<lparr>prop_data := Some (PropData_default\<lparr>pd_ignore := True\<rparr>)\<rparr>)
      else
        (let propdata = get_cls_prop_data gendata (prop_name v) cls_key class_data;
             h = add_type_caster h (prop_raw_type v);
             v = v\<lparr>prop_data := Some propdata\<rparr>;
             v = (case pd_rename propdata of
                    Some r \<Rightarrow>
                      (if r \<noteq> [] then v\<lparr>prop_x_name := Some r\<rparr>
                       else v\<lparr>prop_x_name := Some (if access = Public then prop_name v
                                                    else ''_'' @ prop_name v)\<rparr>)
                  | None \<Rightarrow> v\<lparr>prop_x_name := Some (if access = Public then prop_name v
                                                    else ''_'' @ prop_name v)\<rparr>);
             x_readonly = (if pd_access propdata = PropAccess_AUTOMATIC
                           then \<not> prop_fundamental v \<and> prop_reference v = 0
                           else if pd_access propdata = PropAccess_READONLY then True
                           else False)
         in (h, v\<lparr>prop_x_readonly := Some x_readonly\<rparr>)))"

fun properties_loop ::
  "GeneratorData \<Rightarrow> string \<Rightarrow> ClassData \<Rightarrow> bool \<Rightarrow> Access \<Rightarrow> Hooks \<Rightarrow> Property list
     \<Rightarrow> Hooks \<times> Property list"
where
  "properties_loop gendata cls_key class_data has_trampoline access h [] = (h, [])"
| "properties_loop gendata cls_key class_data has_trampoline access h (v # vs) =
     (let (h, v') = property_step gendata cls_key class_data has_trampoline access h v;
          (h, vs') = properties_loop gendata cls_key class_data has_trampoline access h vs
      in (h, v' # vs'))"

subsection \<open>\<open>class_hook\<close>\<close>

text \<open>
  Lines 495 to 588, reached when the ignored bases are all declared: the qualified name,
  the entry of the class hierarchy, the methods, the trampoline, the properties and the
  remaining \<open>x_\<close> keys. \<open>cls\<close> comes with its bases qualified and \<open>x_inherits\<close> is the list
  of lines 482 to 486.
\<close>

definition class_finish ::
  "GeneratorData \<Rightarrow> Hooks \<Rightarrow> ClassDecl \<Rightarrow> string \<Rightarrow> ClassData \<Rightarrow> Base list
     \<Rightarrow> error + (Hooks \<times> ClassDecl)"
where
  "class_finish gendata h cls cls_key class_data x_inherits =
     (let name = cls_name cls;
          cls_qualname = cls_namespace cls @ ''::'' @ name;
          h = h\<lparr>class_hierarchy :=
                  AList.update cls_qualname
                    (map base_x_qualname x_inherits @ cd_force_depends class_data)
                    (class_hierarchy h)\<rparr>;
          st = \<lparr>m_has_constructor = False,
                m_is_polymorphic = (cd_is_polymorphic class_data \<or> cls_inherits cls \<noteq> []),
                m_self = h\<rparr>
      in case methods_loop gendata cls cls_key class_data Public st (cls_methods_public cls) of
           Inl e \<Rightarrow> Inl e
         | Inr (st, public) \<Rightarrow>
      (case methods_loop gendata cls cls_key class_data Protected st
                (cls_methods_protected cls) of
           Inl e \<Rightarrow> Inl e
         | Inr (st, protected) \<Rightarrow>
      (case methods_loop gendata cls cls_key class_data Private st
                (cls_methods_private cls) of
           Inl e \<Rightarrow> Inl e
         | Inr (st, private) \<Rightarrow>
      (let has_trampoline =
             (m_is_polymorphic st \<and> \<not> cls_final cls \<and> \<not> cd_force_no_trampoline class_data);
           (h, props_public) =
             properties_loop gendata cls_key class_data has_trampoline Public
               (m_self st) (cls_properties_public cls);
           (h, props_protected) =
             properties_loop gendata cls_key class_data has_trampoline Protected
               h (cls_properties_protected cls);
           (h, props_private) =
             properties_loop gendata cls_key class_data has_trampoline Private
               h (cls_properties_private cls);
           x_qualname_u = qualname_translate cls_qualname
       in Inr (h, cls\<lparr>cls_methods_public := public,
                      cls_methods_protected := protected,
                      cls_methods_private := private,
                      cls_properties_public := props_public,
                      cls_properties_protected := props_protected,
                      cls_properties_private := props_private,
                      cls_x := Some
                        \<lparr>cls_x_inherits = x_inherits,
                         cls_x_qualname = cls_qualname,
                         cls_x_qualname_u = x_qualname_u,
                         cls_x_has_trampoline = has_trampoline,
                         cls_x_trampoline_name =
                           (if has_trampoline
                            then Some (''rpygen::Py'' @ x_qualname_u @ ''<'' @ name @ ''>'')
                            else None),
                         cls_x_has_constructor = m_has_constructor st,
                         cls_x_varname = ''cls_'' @ name,
                         cls_x_name = set_name h name (cd_rename class_data)\<rparr>\<rparr>)))))"

text \<open>
  The result of \<open>class_hook\<close> is what was raised, or \<open>self\<close> and the class as the hook
  leaves them. A class that is skipped (nested in a private section, or ignored by its
  override) only gets its \<open>data\<close>.
\<close>

definition class_hook :: "GeneratorData \<Rightarrow> Hooks \<Rightarrow> ClassDecl \<Rightarrow> error + (Hooks \<times> ClassDecl)" where
  "class_hook gendata h cls =
     (if cls_parent_names cls \<noteq> [] \<and> cls_access_in_parent cls = ''private''
      then Inr (h, cls\<lparr>cls_data := Some (ClassData_default\<lparr>cd_ignore := True\<rparr>)\<rparr>)
      else
        (let cls_key = class_key cls;
             class_data = get_class_data gendata cls_key;
             cls = cls\<lparr>cls_data := Some class_data\<rparr>
         in if cd_ignore class_data then Inr (h, cls)
            else
              (let (h, var) = add_subpackage h (cd_subpackage class_data);
                   cls = cls\<lparr>cls_x_module_var := Some var\<rparr>
               in case class_enums_loop h gendata (cls_name cls) cls_key class_data
                         (cls_enums_public cls) of
                    Inl e \<Rightarrow> Inl e
                  | Inr enums \<Rightarrow>
                      (let cls = cls\<lparr>cls_enums_public := enums,
                                     cls_inherits :=
                                       map (base_qualify class_data (cls_namespace cls))
                                           (cls_inherits cls)\<rparr>
                       in case class_x_inherits (cls_name cls) class_data (cls_inherits cls) of
                            Inl e \<Rightarrow> Inl e
                          | Inr x_inherits \<Rightarrow>
                              class_finish gendata h cls cls_key class_data x_inherits))))"

section \<open>Example declarations\<close>

definition hooks_demo :: Hooks where
  "hooks_demo = \<lparr>strip_prefixes = [''HAL_''],
     casters = [(''std::vector'', ''pybind11/stl.h''), (''wpi::StringRef'', ''wpi_stringref.h'')],
     types = {}, class_hierarchy = [], subpackages = []\<rparr>"

definition enum_data_default :: EnumData where
  "enum_data_default = \<lparr>ed_rename = None, ed_value_prefix = None, ed_subpackage = None\<rparr>"

definition enum_of :: "string \<Rightarrow> string list \<Rightarrow> EnumDecl" where
  "enum_of name vals =
     \<lparr>en_name = Some name, en_namespace = '''',
      en_values = map (\<lambda>n. \<lparr>v_name = n, v_x_name = None\<rparr>) vals,
      en_x_name = None, en_x_namespace = None, en_x_module_var = None, en_data = None\<rparr>"

text \<open>A parameter \<open>raw_type name\<close> with \<open>pointer\<close> stars, as the parser hands it over.\<close>

definition param_of :: "string \<Rightarrow> nat \<Rightarrow> string \<Rightarrow> bool \<Rightarrow> Param" where
  "param_of raw_type pointer name fundamental =
     \<lparr>p_name = name, p_raw_type = raw_type, p_enum = None, p_reference = 0,
      p_pointer = pointer, p_constant = 0, p_fundamental = fundamental, p_unresolved = False,
      p_array = 0, p_array_size = None, p_default = None, p_force_out = None,
      p_ignore = None, p_class = None, p_x_type = '''', p_x_callname = '''',
      p_x_retname = '''', p_x_pyarg = '''', p_x_type_full = '''', p_x_decl = ''''\<rparr>"

text \<open>A free function \<open>rtnType name(parameters)\<close>.\<close>

definition function_of :: "string \<Rightarrow> string \<Rightarrow> Param list \<Rightarrow> FunctionDecl" where
  "function_of rtnType name params =
     \<lparr>fn_name = name, fn_returns = rtnType, fn_rtnType = rtnType, fn_constructor = False,
      fn_destructor = False, fn_operator = False, fn_override = False, fn_virtual = False,
      fn_const = False, fn_parameters = params, fn_parent = None, fn_data = None,
      fn_x = None\<rparr>"

text \<open>\<open>int GetValue(uint8_t* buf, int* len)\<close> and the buffer specification of \<open>buf\<close> with
  length \<open>len\<close>, read.\<close>

definition GetValue :: FunctionDecl where
  "GetValue = function_of ''int'' ''GetValue''
     [param_of ''uint8_t'' 1 ''buf'' True, param_of ''int'' 1 ''len'' True]"

definition GetValue_data :: FunctionData where
  "GetValue_data = FunctionData_default
     \<lparr>fd_buffers := [\<lparr>buf_src = ''buf'', buf_len = ''len'', buf_type = IN, buf_minsz = None\<rparr>]\<rparr>"

text \<open>\<open>void f(void* out)\<close>: the parser takes \<open>void\<close> for a fundamental type.\<close>

definition f_void_out :: FunctionDecl where
  "f_void_out = function_of ''void'' ''f'' [param_of ''void'' 1 ''out'' True]"

text \<open>\<open>void f(uint8_t* buf)\<close> with a buffer specification whose length names no parameter.\<close>

definition f_buf :: FunctionDecl where
  "f_buf = function_of ''void'' ''f'' [param_of ''uint8_t'' 1 ''buf'' True]"

definition f_buf_data :: FunctionData where
  "f_buf_data = FunctionData_default
     \<lparr>fd_buffers := [\<lparr>buf_src = ''buf'', buf_len = ''n'', buf_type = IN, buf_minsz = None\<rparr>]\<rparr>"

text \<open>A buffer specification whose source is its length.\<close>

definition f_buf_same_data :: FunctionData where
  "f_buf_same_data = FunctionData_default
     \<lparr>fd_buffers := [\<lparr>buf_src = ''buf'', buf_len = ''buf'', buf_type = IN, buf_minsz = None\<rparr>]\<rparr>"

text \<open>\<open>void HAL_(uint8_t* buf)\<close>: a function whose name is the prefix that is stripped.\<close>

definition f_HAL :: FunctionDecl where
  "f_HAL = function_of ''void'' ''HAL_'' [param_of ''uint8_t'' 1 ''buf'' True]"

text \<open>A registry that has the given override for every class and a default one for
  everything else.\<close>

definition gendata_of :: "ClassData \<Rightarrow> GeneratorData" where
  "gendata_of class_data =
     \<lparr>get_class_data = (\<lambda>cls_key. class_data),
      get_cls_enum_data = (\<lambda>name cls_key class_data. enum_data_default),
      get_function_data = (\<lambda>fn signature cls_key class_data. FunctionData_default),
      get_cls_prop_data = (\<lambda>name cls_key class_data. PropData_default)\<rparr>"

text \<open>A class \<open>namespace::name\<close> at namespace level with the given bases and public
  methods.\<close>

definition class_of :: "string \<Rightarrow> string \<Rightarrow> string list \<Rightarrow> FunctionDecl list \<Rightarrow> ClassDecl" where
  "class_of namespace name bases methods =
     \<lparr>cls_name = name, cls_namespace = namespace, cls_parent_names = [],
      cls_access_in_parent = '''', cls_final = False,
      cls_inherits = map (\<lambda>b. \<lparr>base_class = b, base_x_qualname = '''',
                                 base_x_qualname_u = ''''\<rparr>) bases,
      cls_enums_public = [], cls_methods_public = methods, cls_methods_protected = [],
      cls_methods_private = [], cls_properties_public = [], cls_properties_protected = [],
      cls_properties_private = [], cls_id = 1, cls_data = None, cls_x_module_var = None,
      cls_x = None\<rparr>"

text \<open>\<open>class Derived : public Base\<close> in the namespace \<open>ns\<close>, with a virtual method.\<close>

definition Derived :: ClassDecl where
  "Derived = class_of ''ns'' ''Derived'' [''Base'']
     [(function_of ''void'' ''Update'' [])\<lparr>fn_virtual := True\<rparr>]"

text \<open>
  \<open>class Panel : public Base, public Mixin\<close> in the namespace \<open>ns\<close>, with the public enum
  \<open>Mode { On, Off }\<close>.
\<close>

definition Panel :: ClassDecl where
  "Panel = (class_of ''ns'' ''Panel'' [''Base'', ''Mixin''] [])
     \<lparr>cls_enums_public := [(enum_of ''Mode'' [''On'', ''Off''])\<lparr>en_namespace := ''ns''\<rparr>]\<rparr>"

text \<open>What a run of \<open>class_hook\<close> left in the class hierarchy under a name, and the
  trampoline flag and the bases it computed.\<close>

definition hierarchy_entry :: "error + Hooks \<times> ClassDecl \<Rightarrow> string \<Rightarrow> string list option" where
  "hierarchy_entry r qualname =
     (case r of Inl e \<Rightarrow> None | Inr (h, cls) \<Rightarrow> map_of (class_hierarchy h) qualname)"

definition computed_trampoline :: "error + Hooks \<times> ClassDecl \<Rightarrow> bool option" where
  "computed_trampoline r =
     (case r of Inl e \<Rightarrow> None | Inr (h, cls) \<Rightarrow> map_option cls_x_has_trampoline (cls_x cls))"

definition computed_bases :: "error + Hooks \<times> ClassDecl \<Rightarrow> string list option" where
  "computed_bases r =
     (case r of
        Inl e \<Rightarrow> None
      | Inr (h, cls) \<Rightarrow> map_option (\<lambda>x. map base_class (cls_x_inherits x)) (cls_x cls))"

section \<open>Properties of the type-caster registry\<close>

lemma str_find_ge: "- 1 \<le> str_find s c"
  by (induction s) (auto simp: Let_def)

lemma str_find_none: "(str_find s c = - 1) = (c \<notin> set s)"
proof (induction s)
  case Nil
  show ?case by simp
next
  case (Cons x xs)
  have "- 1 \<le> str_find xs c" by (rule str_find_ge)
  with Cons show ?case by (auto simp: Let_def)
qed

lemma str_find_take: "c \<in> set s \<Longrightarrow> take (nat (str_find s c)) s = takeWhile (\<lambda>x. x \<noteq> c) s"
proof (induction s)
  case Nil
  then show ?case by simp
next
  case (Cons x xs)
  show ?case
  proof (cases "x = c")
    case True
    then show ?thesis by simp
  next
    case False
    with Cons.prems have in_xs: "c \<in> set xs" by simp
    then have ne: "str_find xs c \<noteq> - 1" by (simp add: str_find_none)
    have ge: "- 1 \<le> str_find xs c" by (rule str_find_ge)
    from ne ge have "nat (str_find xs c + 1) = Suc (nat (str_find xs c))" by linarith
    with False ne Cons.IH [OF in_xs] show ?thesis by (simp add: Let_def)
  qed
qed

lemma template_suffix_cut:
  "(if str_find s (CHR ''<'') \<noteq> - 1 then take (nat (str_find s (CHR ''<''))) s else s)
     = takeWhile (\<lambda>x. x \<noteq> CHR ''<'') s"
proof (cases "CHR ''<'' \<in> set s")
  case True
  then show ?thesis by (simp add: str_find_none str_find_take)
next
  case False
  then have tw: "takeWhile (\<lambda>x. x \<noteq> CHR ''<'') s = s" by (auto simp: takeWhile_eq_all_conv)
  from False have nf: "str_find s (CHR ''<'') = - 1" by (simp add: str_find_none)
  show ?thesis unfolding tw nf by simp
qed

lemma caster_header_eq:
  "caster_header tbl t =
     {hdr. map_of tbl (takeWhile (\<lambda>x. x \<noteq> CHR ''<'') t) = Some hdr \<and> hdr \<noteq> []}"
  unfolding caster_header_def Let_def template_suffix_cut
  by (auto split: option.splits)

lemma finite_caster_header: "finite (caster_header tbl t)"
  by (simp add: caster_header_def Let_def split: option.splits)

lemma types_foldl_add: "types (foldl add_type_caster h ts) = types h \<union> set ts"
  by (induction ts arbitrary: h) (auto simp: add_type_caster_def)

lemma casters_foldl_add: "casters (foldl add_type_caster h ts) = casters h"
  by (induction ts arbitrary: h) (auto simp: add_type_caster_def)

text \<open>
  Claim C9. Whatever types were recorded, in whatever order and however often,
  \<open>_get_type_caster_includes\<close> returns the sorted list, without duplicates, of the headers
  that the table gives for the recorded names cut at their first \<open><\<close>; a name without an
  entry (or with an empty one, which Python takes for none) adds nothing. The result
  depends on the set of recorded names only, and recording a name twice changes nothing.
\<close>

theorem get_type_caster_includes_sorted_set:
  "get_type_caster_includes (foldl add_type_caster (h\<lparr>types := {}\<rparr>) ts) =
     sorted_list_of_set
       {hdr. \<exists>t \<in> set ts. map_of (casters h) (takeWhile (\<lambda>x. x \<noteq> CHR ''<'') t) = Some hdr
                          \<and> hdr \<noteq> []}
   \<and> sorted (get_type_caster_includes (foldl add_type_caster (h\<lparr>types := {}\<rparr>) ts))
   \<and> distinct (get_type_caster_includes (foldl add_type_caster (h\<lparr>types := {}\<rparr>) ts))
   \<and> (set ts = set ts' \<longrightarrow>
        get_type_caster_includes (foldl add_type_caster (h\<lparr>types := {}\<rparr>) ts) =
        get_type_caster_includes (foldl add_type_caster (h\<lparr>types := {}\<rparr>) ts'))
   \<and> add_type_caster (add_type_caster h t) t = add_type_caster h t"
proof -
  let ?S = "\<lambda>ts. (\<Union>t \<in> set ts. caster_header (casters h) t)"
  have run: "get_type_caster_includes (foldl add_type_caster (h\<lparr>types := {}\<rparr>) ts) =
      sorted_list_of_set (?S ts)" for ts
    by (simp add: get_type_caster_includes_def types_foldl_add casters_foldl_add)
  have set_eq: "?S ts = {hdr. \<exists>t \<in> set ts.
      map_of (casters h) (takeWhile (\<lambda>x. x \<noteq> CHR ''<'') t) = Some hdr \<and> hdr \<noteq> []}"
    by (auto simp: caster_header_eq)
  have fin: "finite (?S ts)"
    by (simp add: finite_caster_header)
  have idem: "add_type_caster (add_type_caster h t) t = add_type_caster h t"
    by (simp add: add_type_caster_def)
  have indep: "set ts = set ts' \<longrightarrow> sorted_list_of_set (?S ts) = sorted_list_of_set (?S ts')"
    by simp
  have srt: "sorted (sorted_list_of_set (?S ts))" and dst: "distinct (sorted_list_of_set (?S ts))"
    by simp_all
  have main: "sorted_list_of_set (?S ts) = sorted_list_of_set {hdr. \<exists>t \<in> set ts.
      map_of (casters h) (takeWhile (\<lambda>x. x \<noteq> CHR ''<'') t) = Some hdr \<and> hdr \<noteq> []}"
    by (simp only: set_eq)
  show ?thesis
    unfolding run using main srt dst indep idem by blast
qed

theorem get_type_caster_includes_sorted_set_witness:
  "set [''std::vector<int>'', ''wpi::StringRef'', ''double'', ''std::vector<int>''] =
     set [''double'', ''std::vector<int>'', ''wpi::StringRef'']
   \<and> get_type_caster_includes (foldl add_type_caster (hooks_demo\<lparr>types := {}\<rparr>)
         [''std::vector<int>'', ''wpi::StringRef'', ''double'', ''std::vector<int>'']) =
       get_type_caster_includes (foldl add_type_caster (hooks_demo\<lparr>types := {}\<rparr>)
         [''double'', ''std::vector<int>'', ''wpi::StringRef''])
   \<and> get_type_caster_includes (foldl add_type_caster (hooks_demo\<lparr>types := {}\<rparr>)
         [''std::vector<int>'', ''wpi::StringRef'', ''double'', ''std::vector<int>'']) =
       [''pybind11/stl.h'', ''wpi_stringref.h'']"
proof -
  have s: "set [''std::vector<int>'', ''wpi::StringRef'', ''double'', ''std::vector<int>''] =
     set [''double'', ''std::vector<int>'', ''wpi::StringRef'']"
    by auto
  have v: "get_type_caster_includes (foldl add_type_caster (hooks_demo\<lparr>types := {}\<rparr>)
         [''std::vector<int>'', ''wpi::StringRef'', ''double'', ''std::vector<int>'']) =
       [''pybind11/stl.h'', ''wpi_stringref.h'']"
    by code_simp
  from get_type_caster_includes_sorted_set [of hooks_demo
      "[''std::vector<int>'', ''wpi::StringRef'', ''double'', ''std::vector<int>'']"
      "[''double'', ''std::vector<int>'', ''wpi::StringRef'']"] s
  have "get_type_caster_includes (foldl add_type_caster (hooks_demo\<lparr>types := {}\<rparr>)
         [''std::vector<int>'', ''wpi::StringRef'', ''double'', ''std::vector<int>'']) =
       get_type_caster_includes (foldl add_type_caster (hooks_demo\<lparr>types := {}\<rparr>)
         [''double'', ''std::vector<int>'', ''wpi::StringRef''])"
    by blast
  with s v show ?thesis by blast
qed


section \<open>Properties of \<open>_enum_hook\<close>\<close>

lemma startswith_rest_empty:
  "(startswith name pfx \<and> slice_from (length pfx) name = []) = (name = pfx)"
  unfolding startswith_def slice_from_def
  by (metis append_take_drop_id self_append_conv drop_all order_refl take_all)

lemma enum_value_x_name_raises:
  "(\<exists>e. enum_value_x_name (Some pfx) name = Inl e) = (pfx \<noteq> [] \<and> name = pfx)"
proof (cases "pfx \<noteq> [] \<and> startswith name pfx")
  case True
  then have sw: "startswith name pfx" and ne: "pfx \<noteq> []" by simp_all
  show ?thesis
  proof (cases "slice_from (length pfx) name")
    case Nil
    with sw have "name = pfx" using startswith_rest_empty by blast
    with Nil True show ?thesis by (simp add: enum_value_x_name_def)
  next
    case (Cons c cs)
    with sw have "name \<noteq> pfx" using startswith_rest_empty [of name pfx] by auto
    with Cons True show ?thesis by (simp add: enum_value_x_name_def Let_def)
  qed
next
  case False
  then have "\<not> (pfx \<noteq> [] \<and> name = pfx)" by (auto simp: startswith_def)
  with False show ?thesis by (auto simp: enum_value_x_name_def)
qed

lemma enum_value_x_name_error: "enum_value_x_name vp name = Inl e \<Longrightarrow> e = IndexError"
  by (cases "slice_from (length (the vp)) name")
     (auto simp: enum_value_x_name_def Let_def split: option.splits if_splits)

lemma enum_values_loop_error: "enum_values_loop vp vs = Inl e \<Longrightarrow> e = IndexError"
  by (induction vs arbitrary: e) (auto split: sum.splits dest: enum_value_x_name_error)

lemma enum_values_loop_raises:
  "(\<exists>e. enum_values_loop (Some pfx) vs = Inl e) = (pfx \<noteq> [] \<and> (\<exists>v \<in> set vs. v_name v = pfx))"
proof (induction vs)
  case Nil
  show ?case by simp
next
  case (Cons v vs)
  show ?case
  proof (cases "enum_value_x_name (Some pfx) (v_name v)")
    case (Inl e)
    then have "pfx \<noteq> [] \<and> v_name v = pfx" using enum_value_x_name_raises by blast
    with Inl show ?thesis by simp
  next
    case (Inr n)
    then have "\<not> (pfx \<noteq> [] \<and> v_name v = pfx)" using enum_value_x_name_raises [of pfx "v_name v"] by simp
    with Inr Cons.IH show ?thesis by (auto split: sum.splits)
  qed
qed

text \<open>
  Claim C10. For a named enum, \<open>_enum_hook\<close> raises \<open>IndexError\<close> exactly when some
  enumerator is named like the value prefix (the configured one, or the name of the enum):
  the strip leaves the empty string, whose character 0 is then read. It returns a result
  exactly when no enumerator is named so.
\<close>

theorem enum_hook_raises_iff_value_is_prefix:
  assumes named: "en_name en = Some ename" "ename \<noteq> []"
    and pfx: "pfx = (if truthy (ed_value_prefix enum_data) then the (ed_value_prefix enum_data)
                     else ename)"
  shows "(enum_hook h en enum_data = Inl IndexError) = (\<exists>v \<in> set (en_values en). v_name v = pfx)
       \<and> ((\<exists>en'. enum_hook h en enum_data = Inr en') = (\<forall>v \<in> set (en_values en). v_name v \<noteq> pfx))"
proof -
  from named pfx have vp: "enum_value_prefix en enum_data = Some pfx" and ne: "pfx \<noteq> []"
    by (cases "ed_value_prefix enum_data"; simp add: enum_value_prefix_def)+
  let ?loop = "enum_values_loop (Some pfx) (en_values en)"
  have hook: "enum_hook h en enum_data =
      (case ?loop of Inl e \<Rightarrow> Inl e
       | Inr vs \<Rightarrow> Inr (en\<lparr>en_x_name := Some (set_name h ename (ed_rename enum_data)),
                           en_values := vs\<rparr>))"
    using named by (simp add: enum_hook_def vp)
  have raises: "(\<exists>e. ?loop = Inl e) = (\<exists>v \<in> set (en_values en). v_name v = pfx)"
    using ne by (simp add: enum_values_loop_raises)
  show ?thesis
  proof (cases ?loop)
    case (Inl e)
    then have "e = IndexError" by (rule enum_values_loop_error)
    with Inl hook raises show ?thesis by auto
  next
    case (Inr vs)
    with hook raises show ?thesis by auto
  qed
qed

theorem enum_hook_raises_iff_value_is_prefix_witness:
  "enum_hook hooks_demo (enum_of ''Mode'' [''Mode_Off'', ''Mode'']) enum_data_default = Inl IndexError
   \<and> (\<exists>en'. enum_hook hooks_demo (enum_of ''Mode'' [''Mode_Off'', ''ModeOn'']) enum_data_default = Inr en')"
proof -
  have a: "enum_hook hooks_demo (enum_of ''Mode'' [''Mode_Off'', ''Mode'']) enum_data_default = Inl IndexError"
    using enum_hook_raises_iff_value_is_prefix [of "enum_of ''Mode'' [''Mode_Off'', ''Mode'']" "''Mode''"
        "''Mode''" enum_data_default hooks_demo]
    by (simp add: enum_of_def enum_data_default_def)
  have b: "\<exists>en'. enum_hook hooks_demo (enum_of ''Mode'' [''Mode_Off'', ''ModeOn'']) enum_data_default = Inr en'"
    using enum_hook_raises_iff_value_is_prefix [of "enum_of ''Mode'' [''Mode_Off'', ''ModeOn'']" "''Mode''"
        "''Mode''" enum_data_default hooks_demo]
    by (simp add: enum_of_def enum_data_default_def)
  from a b show ?thesis by simp
qed

text \<open>
  Claim C8, at the enum \<open>Color\<close> with the enumerators \<open>Color_Red\<close> and \<open>Color\<close> and no
  configured prefix: the rule of the claim gives \<open>Red\<close> and the empty name, the hook raises
  \<open>IndexError\<close>.
\<close>

theorem enum_hook_value_equal_to_prefix:
  "enum_hook hooks_demo (enum_of ''Color'' [''Color_Red'', ''Color'']) enum_data_default = Inl IndexError"
  by (simp add: enum_hook_def enum_of_def enum_data_default_def enum_value_prefix_def
      enum_value_x_name_def startswith_def slice_from_def)

text \<open>
  The two examples of claim C8: with no configured prefix the enumerators of \<open>Color\<close>
  keep their names, and with the prefix \<open>kColor\<close> they become \<open>Red\<close> and \<open>Blue\<close>; an
  underscore left after the prefix is dropped.
\<close>

lemma enum_hook_Color:
  "map_sum id (map v_x_name \<circ> en_values)
     (enum_hook hooks_demo (enum_of ''Color'' [''kColorRed'', ''kColorBlue'']) enum_data_default)
     = Inr [Some ''kColorRed'', Some ''kColorBlue'']"
  "map_sum id (map v_x_name \<circ> en_values)
     (enum_hook hooks_demo (enum_of ''Color'' [''kColorRed'', ''kColorBlue''])
        (enum_data_default\<lparr>ed_value_prefix := Some ''kColor''\<rparr>))
     = Inr [Some ''Red'', Some ''Blue'']"
  "map_sum id (map v_x_name \<circ> en_values)
     (enum_hook hooks_demo (enum_of ''Color'' [''Color_Red'', ''ColorBlue'']) enum_data_default)
     = Inr [Some ''Red'', Some ''Blue'']"
  by code_simp+

text \<open>
  Off the failing case the rule of claim C8 is what the loop computes: an enumerator
  that starts with the prefix and is longer loses the prefix and then one underscore,
  any other keeps its name.
\<close>

lemma enum_value_x_name_rule:
  assumes "pfx \<noteq> []" and "name \<noteq> pfx"
  shows "enum_value_x_name (Some pfx) name =
     Inr (if startswith name pfx then
            (if hd (drop (length pfx) name) = CHR ''_'' then drop (Suc (length pfx)) name
             else drop (length pfx) name)
          else name)"
proof (cases "startswith name pfx")
  case True
  with assms(2) have "slice_from (length pfx) name \<noteq> []"
    using startswith_rest_empty [of name pfx] by auto
  then obtain c cs where "slice_from (length pfx) name = c # cs"
    by (cases "slice_from (length pfx) name") auto
  with True assms(1) show ?thesis
    by (auto simp: enum_value_x_name_def Let_def slice_from_def drop_Suc drop_tl)
next
  case False
  then show ?thesis by (simp add: enum_value_x_name_def)
qed

section \<open>Properties of \<open>_function_hook\<close>\<close>

subsection \<open>One parameter\<close>

lemma Let_invariant: "P a \<Longrightarrow> (\<And>x. P x \<Longrightarrow> P (f x)) \<Longrightarrow> P (Let a f)"
  by simp

lemma param_update_raw_type: "p_raw_type (param_update p po) = p_raw_type p"
  unfolding param_update_def
  by (intro Let_invariant [where P = "\<lambda>q. p_raw_type q = p_raw_type p"])
     (simp_all split: option.splits)

lemma param_prepare_raw_type: "p_raw_type (param_prepare fn data i p) = p_raw_type p"
  unfolding param_prepare_def
  by (intro Let_invariant [where P = "\<lambda>q. p_raw_type q = p_raw_type p"])
     (simp_all add: param_update_raw_type Let_def split: option.splits)

lemma param_role_keeps:
  assumes "param_role bufinfo buflen p st = (ptype, temp, p', st')"
  shows "p_raw_type p' = p_raw_type p" and "p_name p' = p_name p" and "p_ignore p' = p_ignore p"
    and "l_self st' = l_self st" and "l_params st' = l_params st"
    and "l_out_params st' = l_out_params st" and "l_all_params st' = l_all_params st"
    and "l_in_params st' = l_in_params st" and "l_temps st' = l_temps st"
    and "buffer_params st' = buffer_params st" and "buflen_params st' = buflen_params st"
  using assms
  by (auto simp: param_role_def Let_def split: option.splits if_splits)

lemma param_finish_keeps:
  "p_raw_type (param_finish p) = p_raw_type p" "p_name (param_finish p) = p_name p"
  "p_x_retname (param_finish p) = p_x_retname p"
  by (simp_all add: param_finish_def Let_def)

text \<open>
  What one iteration does to the lists and to the two dictionaries, whatever the
  parameter: the parameter \<open>q\<close> it leaves behind is appended to \<open>l_params\<close> and perhaps to
  the out-parameters, and the name of \<open>q\<close> is popped from both dictionaries.
\<close>

lemma classify_param_step:
  "\<exists>q. l_params (classify_param fn data st ip) = l_params st @ [q]
       \<and> p_raw_type q = p_raw_type (snd ip)
       \<and> (l_out_params (classify_param fn data st ip) = l_out_params st
          \<or> l_out_params (classify_param fn data st ip) = l_out_params st @ [q])
       \<and> class_hierarchy (l_self (classify_param fn data st ip)) = class_hierarchy (l_self st)
       \<and> buffer_params (classify_param fn data st ip)
           = AList.delete (p_name q) (buffer_params st)
       \<and> buflen_params (classify_param fn data st ip)
           = AList.delete (p_name q) (buflen_params st)"
proof -
  define st1 where "st1 = (if fn_constructor fn \<and> p_reference (snd ip) \<noteq> 0
              then st\<lparr>l_keepalives := l_keepalives st @ [(1, fst ip + 2)]\<rparr> else st)"
  define p where "p = param_prepare fn data (fst ip) (snd ip)"
  define st2 where "st2 = st1\<lparr>buffer_params := AList.delete (p_name p) (buffer_params st1)\<rparr>"
  define st3 where "st3 = st2\<lparr>buflen_params := AList.delete (p_name p) (buflen_params st2)\<rparr>"
  obtain ptype temp p' st' where role:
    "param_role (map_of (buffer_params st1) (p_name p)) (map_of (buflen_params st2) (p_name p))
       p st3 = (ptype, temp, p', st')"
    by (metis prod_cases4)
  note keeps = param_role_keeps [OF role]
  have st3: "l_params st3 = l_params st" "l_out_params st3 = l_out_params st"
    "l_self st3 = l_self st"
    "buffer_params st3 = AList.delete (p_name p) (buffer_params st)"
    "buflen_params st3 = AList.delete (p_name p) (buflen_params st)"
    by (simp_all add: st3_def st2_def st1_def)
  have unfold: "classify_param fn data st ip =
     (let p_end = param_finish p';
          st = (if temp then st'\<lparr>l_temps := l_temps st' @ [p_end]\<rparr> else st');
          st = (if p_ignore p' = Some True then st
                else (let st = st\<lparr>l_all_params := l_all_params st @ [p_end]\<rparr>
                      in if ptype = POut then
                           st\<lparr>l_out_params := l_out_params st @ [p_end],
                              l_temps := l_temps st @ [p_end]\<rparr>
                         else if ptype = PIn then
                           st\<lparr>l_in_params := l_in_params st @ [p_end]\<rparr>
                         else st));
          st = st\<lparr>l_self := add_type_caster (l_self st) (p_x_type p')\<rparr>
      in st\<lparr>l_params := l_params st @ [p_end]\<rparr>)"
    unfolding classify_param_def
    by (simp only: Let_def st1_def [symmetric] p_def [symmetric] st2_def [symmetric]
        st3_def [symmetric] role prod.case)
  have "p_raw_type (param_finish p') = p_raw_type (snd ip)"
    by (simp add: param_finish_keeps keeps p_def param_prepare_raw_type)
  moreover have "l_params (classify_param fn data st ip) = l_params st @ [param_finish p']"
    unfolding unfold by (simp add: Let_def keeps st3)
  moreover have "l_out_params (classify_param fn data st ip) = l_out_params st
      \<or> l_out_params (classify_param fn data st ip) = l_out_params st @ [param_finish p']"
    unfolding unfold by (simp add: Let_def keeps st3)
  moreover have "class_hierarchy (l_self (classify_param fn data st ip))
      = class_hierarchy (l_self st)"
    unfolding unfold by (simp add: Let_def keeps st3 add_type_caster_def)
  moreover have "buffer_params (classify_param fn data st ip)
      = AList.delete (p_name (param_finish p')) (buffer_params st)"
    unfolding unfold by (simp add: Let_def keeps st3 param_finish_keeps)
  moreover have "buflen_params (classify_param fn data st ip)
      = AList.delete (p_name (param_finish p')) (buflen_params st)"
    unfolding unfold by (simp add: Let_def keeps st3 param_finish_keeps)
  ultimately show ?thesis by blast
qed

subsection \<open>The loop\<close>

lemma delete_filter_names:
  "AList.delete k (filter (\<lambda>kv. fst kv \<notin> set ks) d) = filter (\<lambda>kv. fst kv \<notin> set (ks @ [k])) d"
  by (induction d) (auto simp: AList.delete_eq)

lemma filter_delete_names:
  "filter (\<lambda>kv. fst kv \<notin> set ks) (AList.delete k d) = filter (\<lambda>kv. fst kv \<notin> set (k # ks)) d"
  by (induction d) (auto simp: AList.delete_eq)

lemma param_loop_lists:
  "\<exists>qs os. l_params (foldl (classify_param fn data) st ips) = l_params st @ qs
       \<and> map p_raw_type qs = map (\<lambda>ip. p_raw_type (snd ip)) ips
       \<and> l_out_params (foldl (classify_param fn data) st ips) = l_out_params st @ os
       \<and> subseq os qs
       \<and> class_hierarchy (l_self (foldl (classify_param fn data) st ips))
           = class_hierarchy (l_self st)
       \<and> buffer_params (foldl (classify_param fn data) st ips)
           = filter (\<lambda>kv. fst kv \<notin> set (map p_name qs)) (buffer_params st)
       \<and> buflen_params (foldl (classify_param fn data) st ips)
           = filter (\<lambda>kv. fst kv \<notin> set (map p_name qs)) (buflen_params st)"
proof (induction ips arbitrary: st)
  case Nil
  show ?case by simp
next
  case (Cons ip ips)
  let ?st1 = "classify_param fn data st ip"
  from classify_param_step [of fn data st ip] obtain q where
    q: "l_params ?st1 = l_params st @ [q]" "p_raw_type q = p_raw_type (snd ip)"
    and out: "l_out_params ?st1 = l_out_params st \<or> l_out_params ?st1 = l_out_params st @ [q]"
    and hier: "class_hierarchy (l_self ?st1) = class_hierarchy (l_self st)"
    and dicts: "buffer_params ?st1 = AList.delete (p_name q) (buffer_params st)"
      "buflen_params ?st1 = AList.delete (p_name q) (buflen_params st)"
    by blast
  from Cons.IH [of ?st1] obtain qs os where
    ih: "l_params (foldl (classify_param fn data) ?st1 ips) = l_params ?st1 @ qs"
      "map p_raw_type qs = map (\<lambda>ip. p_raw_type (snd ip)) ips"
      "l_out_params (foldl (classify_param fn data) ?st1 ips) = l_out_params ?st1 @ os"
      "subseq os qs"
      "class_hierarchy (l_self (foldl (classify_param fn data) ?st1 ips))
         = class_hierarchy (l_self ?st1)"
      "buffer_params (foldl (classify_param fn data) ?st1 ips)
         = filter (\<lambda>kv. fst kv \<notin> set (map p_name qs)) (buffer_params ?st1)"
      "buflen_params (foldl (classify_param fn data) ?st1 ips)
         = filter (\<lambda>kv. fst kv \<notin> set (map p_name qs)) (buflen_params ?st1)"
    by blast
  have bp: "buffer_params (foldl (classify_param fn data) ?st1 ips)
      = filter (\<lambda>kv. fst kv \<notin> set (map p_name (q # qs))) (buffer_params st)"
    unfolding ih(6) dicts(1) filter_delete_names by simp
  have blp: "buflen_params (foldl (classify_param fn data) ?st1 ips)
      = filter (\<lambda>kv. fst kv \<notin> set (map p_name (q # qs))) (buflen_params st)"
    unfolding ih(7) dicts(2) filter_delete_names by simp
  from out show ?case
  proof
    assume same: "l_out_params ?st1 = l_out_params st"
    have "subseq os (q # qs)" using ih(4) by (rule list_emb_Cons)
    with q ih(1-5) same hier bp blp show ?thesis
      by (intro exI [of _ "q # qs"] exI [of _ os]) simp
  next
    assume more: "l_out_params ?st1 = l_out_params st @ [q]"
    have "subseq (q # os) (q # qs)" using ih(4) by simp
    with q ih(1-5) more hier bp blp show ?thesis
      by (intro exI [of _ "q # qs"] exI [of _ "q # os"]) simp
  qed
qed

lemma map_snd_enumerate_from0: "map snd (enumerate_from0 xs) = xs"
  by (simp add: enumerate_from0_def map_snd_zip)

text \<open>The loop started from the locals of \<open>_function_hook\<close>.\<close>

lemma param_loop_from_locals:
  fixes fn data bp blp h
  defines "st \<equiv> param_loop fn data (loop_locals bp blp h)"
  shows "map p_raw_type (l_params st) = map p_raw_type (fn_parameters fn)"
    and "subseq (l_out_params st) (l_params st)"
    and "class_hierarchy (l_self st) = class_hierarchy h"
    and "buffer_params st = filter (\<lambda>kv. fst kv \<notin> set (map p_name (l_params st))) bp"
    and "buflen_params st = filter (\<lambda>kv. fst kv \<notin> set (map p_name (l_params st))) blp"
proof -
  from param_loop_lists [of fn data "loop_locals bp blp h" "enumerate_from0 (fn_parameters fn)"]
  obtain qs os where
    l: "l_params st = qs" "map p_raw_type qs = map (\<lambda>ip. p_raw_type (snd ip))
          (enumerate_from0 (fn_parameters fn))"
      "l_out_params st = os" "subseq os qs"
      "class_hierarchy (l_self st) = class_hierarchy h"
      "buffer_params st = filter (\<lambda>kv. fst kv \<notin> set (map p_name qs)) bp"
      "buflen_params st = filter (\<lambda>kv. fst kv \<notin> set (map p_name qs)) blp"
    unfolding st_def param_loop_def loop_locals_def by auto
  have "map (\<lambda>ip. p_raw_type (snd ip)) (enumerate_from0 (fn_parameters fn))
      = map p_raw_type (map snd (enumerate_from0 (fn_parameters fn)))"
    by simp
  then have "map p_raw_type qs = map p_raw_type (fn_parameters fn)"
    using l(2) by (simp only: map_snd_enumerate_from0)
  with l show "map p_raw_type (l_params st) = map p_raw_type (fn_parameters fn)"
    and "subseq (l_out_params st) (l_params st)"
    and "class_hierarchy (l_self st) = class_hierarchy h"
    and "buffer_params st = filter (\<lambda>kv. fst kv \<notin> set (map p_name (l_params st))) bp"
    and "buflen_params st = filter (\<lambda>kv. fst kv \<notin> set (map p_name (l_params st))) blp"
    by simp_all
qed

subsection \<open>The whole hook\<close>

text \<open>What a run of \<open>_function_hook\<close> that raises nothing has gone through.\<close>

lemma function_hook_core_returns:
  assumes "function_hook_core h fn data internal = (None, h', fn')"
  shows "\<exists>name bp blp st.
      function_x_name h (fn_name fn) (fd_rename data) = Inr name
      \<and> buffers_loop (fd_buffers data) [] [] = Inr (bp, blp)
      \<and> st = param_loop fn (no_release_gil_set data)
               (loop_locals bp blp (add_type_caster h (fn_returns fn)))
      \<and> buffer_params st = []
      \<and> h' = l_self st
      \<and> fn' = function_update (fn\<lparr>fn_parameters := l_params st\<rparr>) (no_release_gil_set data)
                internal name st"
proof (cases "function_x_name h (fn_name fn) (fd_rename data)")
  case (Inl e)
  with assms show ?thesis by (simp add: function_hook_core_def)
next
  case (Inr name)
  have bufs: "fd_buffers (no_release_gil_set data) = fd_buffers data"
    by (simp add: no_release_gil_set_def)
  show ?thesis
  proof (cases "buffers_loop (fd_buffers data) [] []")
    case (Inl e)
    with assms Inr bufs show ?thesis
      by (simp add: function_hook_core_def)
  next
    case bl: (Inr dicts)
    obtain bp blp where dicts: "dicts = (bp, blp)" by (cases dicts)
    from assms Inr bl dicts bufs show ?thesis
      by (simp add: function_hook_core_def Let_def split: if_splits)
  qed
qed

lemma function_hook_core_class_hierarchy:
  "class_hierarchy (fst (snd (function_hook_core h fn data internal))) = class_hierarchy h"
proof (cases "function_x_name h (fn_name fn) (fd_rename data)")
  case (Inl e)
  then show ?thesis by (simp add: function_hook_core_def)
next
  case (Inr name)
  show ?thesis
  proof (cases "buffers_loop (fd_buffers (no_release_gil_set data)) [] []")
    case (Inl e)
    with Inr show ?thesis by (simp add: function_hook_core_def)
  next
    case bl: (Inr dicts)
    obtain bp blp where dicts: "dicts = (bp, blp)" by (cases dicts)
    have "class_hierarchy (l_self (param_loop fn (no_release_gil_set data)
            (loop_locals bp blp (add_type_caster h (fn_returns fn)))))
        = class_hierarchy (add_type_caster h (fn_returns fn))"
      by (rule param_loop_from_locals(3))
    with Inr bl dicts show ?thesis
      by (simp add: function_hook_core_def Let_def add_type_caster_def)
  qed
qed

subsection \<open>Claims about \<open>_function_hook\<close>\<close>

lemma buffers_loop_same_name:
  "\<exists>b\<in>set bs. buf_src b = buf_len b \<Longrightarrow>
   \<exists>b\<in>set bs. buf_src b = buf_len b \<and>
     buffers_loop bs bp blp =
       Inl (ValueError (''buffer src('' @ buf_src b @ '') and len('' @ buf_len b
                         @ '') cannot be the same''))"
proof (induction bs arbitrary: bp blp)
  case Nil
  then show ?case by simp
next
  case (Cons b bs)
  show ?case
  proof (cases "buf_src b = buf_len b")
    case True
    then show ?thesis by auto
  next
    case False
    with Cons.prems have "\<exists>b\<in>set bs. buf_src b = buf_len b" by auto
    from Cons.IH [OF this, of "AList.update (buf_src b) b bp" "AList.update (buf_len b) b blp"]
    show ?thesis using False by auto
  qed
qed

text \<open>
  When some buffer specification has its source name equal to its length name,
  \<open>_function_hook\<close> raises, and \<open>self\<close> and \<open>fn\<close> are as they were on entry: no type has
  been recorded and no parameter classified or changed. When the name of lines 181 to
  183 has been computed, what is raised is the \<open>ValueError\<close> of line 214, which names the
  source and the length of such a specification.
\<close>

lemma function_hook_core_src_equals_len:
  assumes "\<exists>b\<in>set (fd_buffers data). buf_src b = buf_len b"
  shows "\<exists>e. function_hook_core h fn data internal = (Some e, h, fn)
     \<and> (\<forall>name. function_x_name h (fn_name fn) (fd_rename data) = Inr name \<longrightarrow>
          (\<exists>b\<in>set (fd_buffers data). buf_src b = buf_len b \<and>
             e = ValueError (''buffer src('' @ buf_src b @ '') and len('' @ buf_len b
                              @ '') cannot be the same'')))"
proof (cases "function_x_name h (fn_name fn) (fd_rename data)")
  case (Inl e)
  then show ?thesis by (simp add: function_hook_core_def)
next
  case (Inr name)
  have bufs: "fd_buffers (no_release_gil_set data) = fd_buffers data"
    by (simp add: no_release_gil_set_def)
  from buffers_loop_same_name [OF assms, of "[]" "[]"] obtain b where
    b: "b \<in> set (fd_buffers data)" "buf_src b = buf_len b"
      "buffers_loop (fd_buffers data) [] [] =
         Inl (ValueError (''buffer src('' @ buf_src b @ '') and len('' @ buf_len b
                           @ '') cannot be the same''))"
    by blast
  have "function_hook_core h fn data internal =
      (Some (ValueError (''buffer src('' @ buf_src b @ '') and len('' @ buf_len b
                           @ '') cannot be the same'')), h, fn)"
    using Inr b(3) bufs by (simp add: function_hook_core_def)
  with Inr b(1,2) show ?thesis by auto
qed

text \<open>
  Claim C7 fails at \<open>void HAL_(uint8_t* buf)\<close>, with \<open>HAL_\<close> a prefix to strip and a buffer
  specification whose source and length are both \<open>buf\<close>. The claim asks for a
  descriptive error; \<open>_set_name\<close> leaves the empty name, \<open>x_name[0]\<close> at line 183 raises a
  bare \<open>IndexError\<close>, and the check of lines 213 to 217 is never reached. No parameter
  has been classified or changed, as claimed. The same specification on
  \<open>int GetValue(uint8_t* buf, int* len)\<close> gets the \<open>ValueError\<close> of line 214.
\<close>

theorem function_hook_empty_name_before_buffer_check:
  "function_hook_core hooks_demo f_HAL f_buf_same_data False
     = (Some IndexError, hooks_demo, f_HAL)
   \<and> function_hook_core hooks_demo GetValue f_buf_same_data False
     = (Some (ValueError ''buffer src(buf) and len(buf) cannot be the same''),
        hooks_demo, GetValue)"
proof -
  have ex: "\<exists>b\<in>set (fd_buffers f_buf_same_data). buf_src b = buf_len b"
    by (simp add: f_buf_same_data_def)
  have a: "fst (function_hook_core hooks_demo f_HAL f_buf_same_data False) = Some IndexError"
    and b: "fst (function_hook_core hooks_demo GetValue f_buf_same_data False)
      = Some (ValueError ''buffer src(buf) and len(buf) cannot be the same'')"
    by code_simp+
  from function_hook_core_src_equals_len [OF ex, of hooks_demo f_HAL False] a
    function_hook_core_src_equals_len [OF ex, of hooks_demo GetValue False] b
  show ?thesis by auto
qed

lemma strip_first_prefix_find:
  "strip_first_prefix sp name =
     (case find (startswith name) sp of None \<Rightarrow> name | Some pfx \<Rightarrow> drop (length pfx) name)"
  by (induction sp) (simp_all add: slice_from_def)

lemma isupper_two_upper:
  "is_ascii_upper c1 \<Longrightarrow> is_ascii_upper c2 \<Longrightarrow> isupper (take 2 (c1 # c2 # cs))"
  by (auto simp: isupper_def is_ascii_upper_def is_ascii_lower_def numeral_2_eq_2)

text \<open>
  Claim C5, as amended. With a rename (a non-empty one) the name is the rename, whatever
  the prefixes, at line 181 as at line 369. Without one, \<open>_set_name\<close> cuts off the first
  prefix of the list that the name starts with, once; and the first character of what
  \<open>_set_name\<close> returns is lowered whether or not a prefix was cut off, unless the first two
  characters of that name are \<open>isupper\<close>, which they are when both are upper-case letters.
\<close>

theorem function_name_resolution:
  "(rename = Some r \<and> r \<noteq> [] \<longrightarrow>
      set_name h name rename = r \<and> function_x_name h name rename = Inr r
      \<and> (fd_rename data = rename \<longrightarrow> final_x_name fn data internal n = r))
   \<and> (\<not> truthy rename \<longrightarrow>
        set_name h name rename =
          (case find (startswith name) (strip_prefixes h) of
             None \<Rightarrow> name
           | Some pfx \<Rightarrow> drop (length pfx) name))
   \<and> (\<not> truthy rename \<and> set_name h name rename = c # cs \<longrightarrow>
        function_x_name h name rename =
          Inr (if isupper (take 2 (c # cs)) then c # cs else lower c # cs))
   \<and> (\<not> truthy rename \<and> set_name h name rename = c1 # c2 # cs'
        \<and> is_ascii_upper c1 \<and> is_ascii_upper c2 \<longrightarrow>
        function_x_name h name rename = Inr (c1 # c2 # cs'))"
proof -
  have a: "rename = Some r \<and> r \<noteq> [] \<longrightarrow>
      set_name h name rename = r \<and> function_x_name h name rename = Inr r
      \<and> (fd_rename data = rename \<longrightarrow> final_x_name fn data internal n = r)"
    by (auto simp: set_name_def function_x_name_def final_x_name_def Let_def)
  have b: "\<not> truthy rename \<longrightarrow>
        set_name h name rename =
          (case find (startswith name) (strip_prefixes h) of
             None \<Rightarrow> name
           | Some pfx \<Rightarrow> drop (length pfx) name)"
    by (cases rename) (auto simp: set_name_def strip_first_prefix_find)
  have c: "\<not> truthy rename \<and> set_name h name rename = c # cs \<longrightarrow>
        function_x_name h name rename =
          Inr (if isupper (take 2 (c # cs)) then c # cs else lower c # cs)"
    by (simp add: function_x_name_def Let_def slice_from_def)
  have d: "\<not> truthy rename \<and> set_name h name rename = c1 # c2 # cs'
        \<and> is_ascii_upper c1 \<and> is_ascii_upper c2 \<longrightarrow>
        function_x_name h name rename = Inr (c1 # c2 # cs')"
    using isupper_two_upper [of c1 c2 cs'] by (simp add: function_x_name_def Let_def)
  from a b c d show ?thesis by blast
qed

theorem function_name_resolution_witness:
  "function_x_name hooks_demo ''HAL_GetValue'' (Some ''value'') = Inr ''value''
   \<and> set_name hooks_demo ''HAL_GetValue'' None = ''GetValue''
   \<and> function_x_name hooks_demo ''HAL_GetValue'' None = Inr ''getValue''
   \<and> function_x_name hooks_demo ''HAL_CANInit'' None = Inr ''CANInit''"
proof -
  have sn: "set_name hooks_demo ''HAL_GetValue'' None = ''GetValue''"
    and sc: "set_name hooks_demo ''HAL_CANInit'' None = ''CANInit''"
    and find: "find (startswith ''HAL_GetValue'') (strip_prefixes hooks_demo) = Some ''HAL_''"
    and up: "is_ascii_upper CHR ''C''" "is_ascii_upper CHR ''A''"
    and low: "\<not> isupper (take 2 ''GetValue'')" "lower CHR ''G'' = CHR ''g''"
    by code_simp+
  have a: "function_x_name hooks_demo ''HAL_GetValue'' (Some ''value'') = Inr ''value''"
    using function_name_resolution [where rename = "Some ''value''" and r = "''value''" and h = hooks_demo
        and name = "''HAL_GetValue''"]
    by simp
  have b: "set_name hooks_demo ''HAL_GetValue'' None = ''GetValue''"
    using function_name_resolution [where rename = None and h = hooks_demo and name = "''HAL_GetValue''"] find
    by simp
  have c: "function_x_name hooks_demo ''HAL_GetValue'' None = Inr ''getValue''"
    using function_name_resolution [where rename = None and h = hooks_demo and name = "''HAL_GetValue''"
        and c = "CHR ''G''" and cs = "''etValue''"] sn low
    by simp
  have d: "function_x_name hooks_demo ''HAL_CANInit'' None = Inr ''CANInit''"
    using function_name_resolution [where rename = None and h = hooks_demo and name = "''HAL_CANInit''"
        and ?c1.0 = "CHR ''C''" and ?c2.0 = "CHR ''A''" and cs' = "''NInit''"] sc up
    by simp
  from a b c d show ?thesis by simp
qed

text \<open>
  Claim C5 as stated fails at \<open>HAL_GetValue\<close> with the prefix list \<open>["HAL_"]\<close> and no rename:
  the prefix is cut off and the first character is lowered all the same.
\<close>

theorem function_name_lowered_after_strip:
  "set_name hooks_demo ''HAL_GetValue'' None = ''GetValue''
   \<and> function_x_name hooks_demo ''HAL_GetValue'' None = Inr ''getValue''"
  by code_simp

lemma return_aggregate_eq:
  "return_aggregate rtnType out_params =
     (if rtnType \<noteq> ''void'' then [RetValue ''__ret'' rtnType] else []) @ map RetParam out_params"
  by (simp add: return_aggregate_def Let_def)

lemma wrap_return_shape:
  "wrap_return rets =
     (if rets = [] then ''''
      else if length rets = 1 then
        (if ret_x_type (hd rets) \<noteq> ''void'' then ''return '' @ ret_x_retname (hd rets) @ '';''
         else '''')
      else ''return std::make_tuple('' @ join '','' (map ret_x_retname rets) @ '');'')"
proof (cases rets)
  case Nil
  then show ?thesis by (simp add: wrap_return_def)
next
  case (Cons r rs)
  then show ?thesis by (cases rs) (simp_all add: wrap_return_def)
qed

text \<open>
  Claim C2, as amended. When \<open>_function_hook\<close> returns, \<open>x_rets\<close> is the primary return
  value (when the return type is not \<open>void\<close>) followed by the out-parameters, so its
  length is one or zero plus their number; the out-parameters are in the order of the
  parameters; there is no return statement when \<open>x_rets\<close> is empty or when its only entry
  has the type \<open>void\<close>, a direct return of the only entry otherwise, and a tuple of all
  entries, in their order, when there are several.
\<close>

theorem function_hook_return_aggregate:
  assumes "function_hook_core h fn data internal = (None, h', fn')"
  shows "\<exists>x. fn_x fn' = Some x
     \<and> x_rets x = (if fn_rtnType fn \<noteq> ''void'' then [RetValue ''__ret'' (fn_rtnType fn)] else [])
                  @ map RetParam (x_out_params x)
     \<and> length (x_rets x) = (if fn_rtnType fn \<noteq> ''void'' then 1 else 0) + length (x_out_params x)
     \<and> subseq (x_out_params x) (fn_parameters fn')
     \<and> map p_raw_type (fn_parameters fn') = map p_raw_type (fn_parameters fn)
     \<and> x_wrap_return x =
         (if x_rets x = [] then ''''
          else if length (x_rets x) = 1 then
            (if ret_x_type (hd (x_rets x)) \<noteq> ''void''
             then ''return '' @ ret_x_retname (hd (x_rets x)) @ '';''
             else '''')
          else ''return std::make_tuple('' @ join '','' (map ret_x_retname (x_rets x)) @ '');'')"
proof -
  from function_hook_core_returns [OF assms] obtain name bp blp st where
    st: "st = param_loop fn (no_release_gil_set data)
               (loop_locals bp blp (add_type_caster h (fn_returns fn)))"
    and fn': "fn' = function_update (fn\<lparr>fn_parameters := l_params st\<rparr>)
                (no_release_gil_set data) internal name st"
    by blast
  define x where "x = the (fn_x fn')"
  have some: "fn_x fn' = Some x"
    by (simp add: x_def fn' function_update_def Let_def)
  have params: "fn_parameters fn' = l_params st"
    by (simp add: fn' function_update_def Let_def)
  have outs: "x_out_params x = l_out_params st"
    by (simp add: x_def fn' function_update_def Let_def)
  have rets: "x_rets x = return_aggregate (fn_rtnType fn) (x_out_params x)"
    by (simp add: x_def fn' function_update_def Let_def)
  have wrap: "x_wrap_return x = wrap_return (x_rets x)"
    by (simp add: x_def fn' function_update_def Let_def)
  have order: "subseq (x_out_params x) (fn_parameters fn')"
    unfolding params outs st by (rule param_loop_from_locals(2))
  have raw: "map p_raw_type (fn_parameters fn') = map p_raw_type (fn_parameters fn)"
    unfolding params st by (rule param_loop_from_locals(1))
  have rets': "x_rets x = (if fn_rtnType fn \<noteq> ''void'' then [RetValue ''__ret'' (fn_rtnType fn)]
      else []) @ map RetParam (x_out_params x)"
    using rets by (simp only: return_aggregate_eq)
  have len: "length (x_rets x) = (if fn_rtnType fn \<noteq> ''void'' then 1 else 0)
      + length (x_out_params x)"
    by (subst rets') simp
  show ?thesis
    using some rets' len order raw wrap wrap_return_shape [of "x_rets x"]
    by (intro exI [of _ x]) (simp only: simp_thms)
qed

theorem function_hook_return_aggregate_witness:
  "fst (function_hook_core hooks_demo GetValue GetValue_data False) = None
   \<and> (\<exists>x. fn_x (snd (snd (function_hook_core hooks_demo GetValue GetValue_data False))) = Some x
        \<and> x_rets x = RetValue ''__ret'' ''int'' # map RetParam (x_out_params x)
        \<and> length (x_rets x) = 2
        \<and> x_wrap_return x = ''return std::make_tuple(__ret,len);'')"
proof -
  let ?R = "function_hook_core hooks_demo GetValue GetValue_data False"
  have none: "fst ?R = None" by code_simp
  then have run: "?R = (None, fst (snd ?R), snd (snd ?R))"
    by (metis prod.collapse)
  have outs: "map_option (map p_x_retname \<circ> x_out_params) (fn_x (snd (snd ?R))) = Some [''len'']"
    by code_simp
  have rtn: "fn_rtnType GetValue = ''int''"
    by (simp add: GetValue_def function_of_def)
  from function_hook_return_aggregate [OF run] obtain x where
    x: "fn_x (snd (snd ?R)) = Some x"
      "x_rets x = (if fn_rtnType GetValue \<noteq> ''void''
                   then [RetValue ''__ret'' (fn_rtnType GetValue)] else [])
                  @ map RetParam (x_out_params x)"
      "x_wrap_return x =
         (if x_rets x = [] then ''''
          else if length (x_rets x) = 1 then
            (if ret_x_type (hd (x_rets x)) \<noteq> ''void''
             then ''return '' @ ret_x_retname (hd (x_rets x)) @ '';''
             else '''')
          else ''return std::make_tuple('' @ join '','' (map ret_x_retname (x_rets x)) @ '');'')"
    by blast
  from outs x(1) have names: "map p_x_retname (x_out_params x) = [''len'']" by simp
  then obtain q where q: "x_out_params x = [q]" "p_x_retname q = ''len''" by auto
  from x(2) rtn q have rets: "x_rets x = [RetValue ''__ret'' ''int'', RetParam q]" by simp
  have "x_wrap_return x = ''return std::make_tuple(__ret,len);''"
    unfolding x(3) rets using q(2) by simp
  with none x(1) rets q show ?thesis by simp
qed

text \<open>
  Claim C2 as stated fails at \<open>void f(void* out)\<close>: \<open>x_rets\<close> has exactly one entry, the
  out-parameter of type \<open>void\<close>, and there is no return statement.
\<close>

theorem function_hook_single_void_out:
  "fst (function_hook_core hooks_demo f_void_out FunctionData_default False) = None
   \<and> map_option (length \<circ> x_rets)
        (fn_x (snd (snd (function_hook_core hooks_demo f_void_out FunctionData_default False))))
      = Some 1
   \<and> map_option x_wrap_return
        (fn_x (snd (snd (function_hook_core hooks_demo f_void_out FunctionData_default False))))
      = Some ''''"
  by code_simp

text \<open>
  Claim C3, as amended. For \<open>int GetValue(uint8_t* buf, int* len)\<close> with the buffer
  specification of source \<open>buf\<close> and length \<open>len\<close>, read: \<open>buf\<close> becomes a \<open>py::buffer\<close> passed as
  \<open>(uint8_t*)__buf.ptr\<close>; \<open>len\<close>, a pointer, is an out-parameter passed as \<open>&len\<close>, with a
  temporary set to \<open>__buf.size * __buf.itemsize\<close>; and the function returns the tuple of
  \<open>__ret\<close> and \<open>len\<close>.
\<close>

theorem GetValue_len_is_out_parameter:
  "fst (function_hook_core hooks_demo GetValue GetValue_data False) = None
   \<and> map (\<lambda>p. (p_name p, p_x_type p, p_x_callname p))
        (fn_parameters (snd (snd (function_hook_core hooks_demo GetValue GetValue_data False))))
      = [(''buf'', ''const py::buffer'', ''(uint8_t*)__buf.ptr''), (''len'', ''int'', ''&len'')]
   \<and> map_option (\<lambda>x. (map p_name (x_all_params x), map p_name (x_in_params x),
                       map p_name (x_out_params x)))
        (fn_x (snd (snd (function_hook_core hooks_demo GetValue GetValue_data False))))
      = Some ([''buf'', ''len''], [''buf''], [''len''])
   \<and> map_option x_lambda_pre
        (fn_x (snd (snd (function_hook_core hooks_demo GetValue GetValue_data False))))
      = Some [''int len = 0'', ''auto __buf = buf.request(false)'',
              ''len = __buf.size * __buf.itemsize'']
   \<and> map_option (\<lambda>x. map (\<lambda>r. (ret_x_retname r, ret_x_type r)) (x_rets x))
        (fn_x (snd (snd (function_hook_core hooks_demo GetValue GetValue_data False))))
      = Some [(''__ret'', ''int''), (''len'', ''int'')]
   \<and> map_option x_wrap_return
        (fn_x (snd (snd (function_hook_core hooks_demo GetValue GetValue_data False))))
      = Some ''return std::make_tuple(__ret,len);''"
  by code_simp

text \<open>
  Claim C3 as stated fails: the return aggregate is not the primary return alone, and
  \<open>len\<close> is among the out-parameters.
\<close>

theorem GetValue_return_is_not_int_only:
  "map_option (map ret_x_retname \<circ> x_rets)
     (fn_x (snd (snd (function_hook_core hooks_demo GetValue GetValue_data False))))
     \<noteq> Some [''__ret'']
   \<and> map_option (map p_name \<circ> x_out_params)
     (fn_x (snd (snd (function_hook_core hooks_demo GetValue GetValue_data False))))
     = Some [''len'']"
  by code_simp

text \<open>With \<open>int len\<close> in place of \<open>int* len\<close> the length is a temporary that is not returned.\<close>

lemma GetValue_len_by_value:
  "map_option (\<lambda>x. (map p_name (x_all_params x), map p_name (x_in_params x),
                    map p_name (x_out_params x), map ret_x_retname (x_rets x),
                    x_lambda_pre x, x_wrap_return x))
     (fn_x (snd (snd (function_hook_core hooks_demo
        (function_of ''int'' ''GetValue''
           [param_of ''uint8_t'' 1 ''buf'' True, param_of ''int'' 0 ''len'' True])
        GetValue_data False))))
   = Some ([''buf'', ''len''], [''buf''], [], [''__ret''],
           [''int len = 0'', ''auto __buf = buf.request(false)'',
            ''len = __buf.size * __buf.itemsize''],
           ''return __ret;'')"
  by code_simp

text \<open>
  Claim C4, at \<open>void f(uint8_t* buf)\<close> with a buffer specification of source \<open>buf\<close> and
  length \<open>n\<close>: no parameter is named \<open>n\<close>, the claim has the hook raise and name \<open>n\<close>, and the
  hook raises nothing and emits the assignment to \<open>n\<close>.
\<close>

theorem function_hook_unmatched_length_accepted:
  "fst (function_hook_core hooks_demo f_buf f_buf_data False) = None
   \<and> map_option x_lambda_pre
        (fn_x (snd (snd (function_hook_core hooks_demo f_buf f_buf_data False))))
      = Some [''auto __buf = buf.request(false)'', ''n = __buf.size * __buf.itemsize'']"
  by code_simp

lemma buffers_loop_keys:
  "buffers_loop bs bp blp = Inr (bp', blp') \<Longrightarrow>
   fst ` set bp' = fst ` set bp \<union> buf_src ` set bs
   \<and> fst ` set blp' = fst ` set blp \<union> buf_len ` set bs"
proof (induction bs arbitrary: bp blp)
  case Nil
  then show ?case by simp
next
  case (Cons b bs)
  from Cons.prems have ne: "buf_src b \<noteq> buf_len b" by (auto split: if_splits)
  with Cons.prems have "buffers_loop bs (AList.update (buf_src b) b bp)
      (AList.update (buf_len b) b blp) = Inr (bp', blp')" by simp
  from Cons.IH [OF this] show ?case by (auto simp: dom_update)
qed

text \<open>
  The check after the loop looks at the source names only: a run that got as far as the
  loop raises there exactly when the source name of some buffer specification is the
  name of no parameter, and the message lists those names. The length names are popped
  during the loop and never looked at again.
\<close>

lemma function_hook_core_checks_source_names:
  assumes run: "function_hook_core h fn data internal = (e, h', fn')"
    and name: "function_x_name h (fn_name fn) (fd_rename data) = Inr name"
    and bufs: "buffers_loop (fd_buffers data) [] [] = Inr (bp, blp)"
  shows "(e = None) = (\<forall>b\<in>set (fd_buffers data). buf_src b \<in> p_name ` set (fn_parameters fn'))"
    and "e \<noteq> None \<Longrightarrow>
      e = Some (ValueError (incorrect_buffer_names
            (filter (\<lambda>kv. fst kv \<notin> p_name ` set (fn_parameters fn')) bp)))"
proof -
  define st where "st = param_loop fn (no_release_gil_set data)
      (loop_locals bp blp (add_type_caster h (fn_returns fn)))"
  have fb: "fd_buffers (no_release_gil_set data) = fd_buffers data"
    by (simp add: no_release_gil_set_def)
  have left: "buffer_params st = filter (\<lambda>kv. fst kv \<notin> set (map p_name (l_params st))) bp"
    unfolding st_def by (rule param_loop_from_locals(4))
  have "function_hook_core h fn data internal = (if buffer_params st \<noteq> [] then
         (Some (ValueError (incorrect_buffer_names (buffer_params st))), l_self st,
          fn\<lparr>fn_parameters := l_params st\<rparr>)
       else (None, l_self st,
             function_update (fn\<lparr>fn_parameters := l_params st\<rparr>) (no_release_gil_set data)
               internal name st))"
    using name bufs fb by (simp add: function_hook_core_def Let_def st_def)
  with run have res: "(e, h', fn') = (if buffer_params st \<noteq> [] then
         (Some (ValueError (incorrect_buffer_names (buffer_params st))), l_self st,
          fn\<lparr>fn_parameters := l_params st\<rparr>)
       else (None, l_self st,
             function_update (fn\<lparr>fn_parameters := l_params st\<rparr>) (no_release_gil_set data)
               internal name st))"
    by simp
  then have params: "fn_parameters fn' = l_params st"
    by (auto simp: function_update_def Let_def split: if_splits)
  from res have e: "(e = None) = (buffer_params st = [])"
    by (auto split: if_splits)
  from buffers_loop_keys [OF bufs] have keys: "fst ` set bp = buf_src ` set (fd_buffers data)"
    by simp
  have "(buffer_params st = []) = (\<forall>k \<in> fst ` set bp. k \<in> p_name ` set (l_params st))"
    unfolding left by (auto simp: filter_empty_conv)
  with e keys params
  show "(e = None) = (\<forall>b\<in>set (fd_buffers data). buf_src b \<in> p_name ` set (fn_parameters fn'))"
    by auto
  assume "e \<noteq> None"
  with res have "e = Some (ValueError (incorrect_buffer_names (buffer_params st)))"
    by (auto split: if_splits)
  then show "e = Some (ValueError (incorrect_buffer_names
            (filter (\<lambda>kv. fst kv \<notin> p_name ` set (fn_parameters fn')) bp)))"
    unfolding left params by simp
qed

section \<open>Properties of \<open>class_hook\<close>\<close>

subsection \<open>Methods and properties\<close>

lemma method_step_returns:
  assumes "method_step gendata cls cls_key class_data access st fn = Inr (st', fn')"
  shows "m_is_polymorphic st' = (m_is_polymorphic st \<or> fn_override fn \<or> fn_virtual fn)"
    and "class_hierarchy (m_self st') = class_hierarchy (m_self st)"
proof -
  define st1 where "st1 = (if fn_constructor fn then st\<lparr>m_has_constructor := True\<rparr> else st)"
  define st2 where "st2 = (if fn_override fn \<or> fn_virtual fn
      then st1\<lparr>m_is_polymorphic := True\<rparr> else st1)"
  have st2: "m_is_polymorphic st2 = (m_is_polymorphic st \<or> fn_override fn \<or> fn_virtual fn)"
    "m_self st2 = m_self st"
    by (auto simp: st2_def st1_def)
  let ?md = "get_function_data gendata fn (get_function_signature fn) cls_key class_data"
  obtain e h2 fn2 where hook:
    "function_hook_core (m_self st2) fn ?md (access \<noteq> Public) = (e, h2, fn2)"
    by (metis prod_cases3)
  from function_hook_core_class_hierarchy [of "m_self st2" fn ?md "access \<noteq> Public"] hook
  have h2: "class_hierarchy h2 = class_hierarchy (m_self st)"
    by (simp add: st2)
  from assms have "st' = st2 \<or> st' = st2\<lparr>m_self := h2\<rparr>"
    unfolding method_step_def
    by (simp only: Let_def st1_def [symmetric] st2_def [symmetric])
       (auto simp: hook split: if_splits option.splits)
  then show "m_is_polymorphic st' = (m_is_polymorphic st \<or> fn_override fn \<or> fn_virtual fn)"
    and "class_hierarchy (m_self st') = class_hierarchy (m_self st)"
    using st2 h2 by auto
qed

lemma methods_loop_returns:
  "methods_loop gendata cls cls_key class_data access st fns = Inr (st', fns') \<Longrightarrow>
   m_is_polymorphic st' = (m_is_polymorphic st \<or> (\<exists>fn\<in>set fns. fn_override fn \<or> fn_virtual fn))
   \<and> class_hierarchy (m_self st') = class_hierarchy (m_self st)"
proof (induction fns arbitrary: st st' fns')
  case Nil
  then show ?case by simp
next
  case (Cons fn fns)
  from Cons.prems obtain st1 fn1 where
    step: "method_step gendata cls cls_key class_data access st fn = Inr (st1, fn1)"
    by (auto split: sum.splits)
  with Cons.prems obtain fns1 where
    rest: "methods_loop gendata cls cls_key class_data access st1 fns = Inr (st', fns1)"
    by (auto split: sum.splits)
  from Cons.IH [OF rest] method_step_returns [OF step] show ?case by auto
qed

lemma property_step_class_hierarchy:
  "class_hierarchy (fst (property_step gendata cls_key class_data ht access h v)) = class_hierarchy h"
  by (simp add: property_step_def Let_def add_type_caster_def split: option.splits)

lemma properties_loop_class_hierarchy:
  "class_hierarchy (fst (properties_loop gendata cls_key class_data ht access h vs))
     = class_hierarchy h"
proof (induction vs arbitrary: h)
  case Nil
  show ?case by simp
next
  case (Cons v vs)
  obtain h1 v1 where s: "property_step gendata cls_key class_data ht access h v = (h1, v1)"
    by (cases "property_step gendata cls_key class_data ht access h v")
  from property_step_class_hierarchy [of gendata cls_key class_data ht access h v] s
  have h1: "class_hierarchy h1 = class_hierarchy h" by simp
  obtain h2 vs2 where l: "properties_loop gendata cls_key class_data ht access h1 vs = (h2, vs2)"
    by (cases "properties_loop gendata cls_key class_data ht access h1 vs")
  from Cons.IH [of h1] l have "class_hierarchy h2 = class_hierarchy h1" by simp
  with s l h1 show ?case by simp
qed

lemma class_finish_returns:
  assumes "class_finish gendata h cls cls_key class_data x_inherits = Inr (h', cls')"
  shows "\<exists>x. cls_x cls' = Some x \<and> cls_x_inherits x = x_inherits
     \<and> cls_x_has_trampoline x =
         ((cd_is_polymorphic class_data \<or> cls_inherits cls \<noteq> []
           \<or> (\<exists>fn\<in>set (cls_methods_public cls @ cls_methods_protected cls
                         @ cls_methods_private cls). fn_override fn \<or> fn_virtual fn))
          \<and> \<not> cls_final cls \<and> \<not> cd_force_no_trampoline class_data)
     \<and> class_hierarchy h' =
         AList.update (cls_namespace cls @ ''::'' @ cls_name cls)
           (map base_x_qualname x_inherits @ cd_force_depends class_data) (class_hierarchy h)"
proof -
  define h0 where "h0 = h\<lparr>class_hierarchy :=
      AList.update (cls_namespace cls @ ''::'' @ cls_name cls)
        (map base_x_qualname x_inherits @ cd_force_depends class_data) (class_hierarchy h)\<rparr>"
  define st0 where "st0 = \<lparr>m_has_constructor = False,
      m_is_polymorphic = (cd_is_polymorphic class_data \<or> cls_inherits cls \<noteq> []),
      m_self = h0\<rparr>"
  note fin = assms [unfolded class_finish_def Let_def, folded h0_def, folded st0_def]
  from fin obtain st1 pub where
    l1: "methods_loop gendata cls cls_key class_data Public st0 (cls_methods_public cls)
           = Inr (st1, pub)"
    by (auto split: sum.splits)
  from fin l1 obtain st2 prot where
    l2: "methods_loop gendata cls cls_key class_data Protected st1 (cls_methods_protected cls)
           = Inr (st2, prot)"
    by (auto split: sum.splits)
  from fin l1 l2 obtain st3 priv where
    l3: "methods_loop gendata cls cls_key class_data Private st2 (cls_methods_private cls)
           = Inr (st3, priv)"
    by (auto split: sum.splits)
  note m1 = methods_loop_returns [OF l1] and m2 = methods_loop_returns [OF l2]
    and m3 = methods_loop_returns [OF l3]
  have poly: "m_is_polymorphic st3 =
      (cd_is_polymorphic class_data \<or> cls_inherits cls \<noteq> []
       \<or> (\<exists>fn\<in>set (cls_methods_public cls @ cls_methods_protected cls
                     @ cls_methods_private cls). fn_override fn \<or> fn_virtual fn))"
    using m1 m2 m3 by (auto simp: st0_def)
  have hier3: "class_hierarchy (m_self st3) = class_hierarchy h0"
    using m1 m2 m3 by (simp add: st0_def)
  define ht where "ht = (m_is_polymorphic st3 \<and> \<not> cls_final cls
      \<and> \<not> cd_force_no_trampoline class_data)"
  obtain h4 pp where p1: "properties_loop gendata cls_key class_data ht Public (m_self st3)
      (cls_properties_public cls) = (h4, pp)" by (metis surj_pair)
  obtain h5 pq where p2: "properties_loop gendata cls_key class_data ht Protected h4
      (cls_properties_protected cls) = (h5, pq)" by (metis surj_pair)
  obtain h6 pr where p3: "properties_loop gendata cls_key class_data ht Private h5
      (cls_properties_private cls) = (h6, pr)" by (metis surj_pair)
  have hier6: "class_hierarchy h6 = class_hierarchy h0"
    using properties_loop_class_hierarchy [of gendata cls_key class_data ht Public "m_self st3"
        "cls_properties_public cls"]
      properties_loop_class_hierarchy [of gendata cls_key class_data ht Protected h4
        "cls_properties_protected cls"]
      properties_loop_class_hierarchy [of gendata cls_key class_data ht Private h5
        "cls_properties_private cls"]
      p1 p2 p3 hier3
    by simp
  from fin l1 l2 l3 p1 p2 p3 have
    "h' = h6 \<and> (\<exists>x. cls_x cls' = Some x \<and> cls_x_inherits x = x_inherits
        \<and> cls_x_has_trampoline x = ht)"
    by (auto simp: ht_def [symmetric])
  with hier6 poly show ?thesis
    by (auto simp: ht_def h0_def)
qed

subsection \<open>Ignored bases\<close>

lemma ignored_bases_fold:
  "distinct (map fst d) \<Longrightarrow> (\<forall>kv\<in>set d. snd kv) \<Longrightarrow>
   distinct (map fst (foldl (\<lambda>d ib. AList.update ib True d) d names))
   \<and> (\<forall>kv\<in>set (foldl (\<lambda>d ib. AList.update ib True d) d names). snd kv)
   \<and> fst ` set (foldl (\<lambda>d ib. AList.update ib True d) d names) = fst ` set d \<union> set names"
proof (induction names arbitrary: d)
  case Nil
  then show ?case by simp
next
  case (Cons ib names)
  have d: "distinct (map fst (AList.update ib True d))"
    using Cons.prems(1) by (rule distinct_update)
  have v: "\<forall>kv\<in>set (AList.update ib True d). snd kv"
    using Cons.prems(2) by (induction d) auto
  from Cons.IH [OF d v] show ?case by (auto simp: dom_update)
qed

lemma ignored_bases_dict_props:
  "distinct (map fst (ignored_bases_dict names))"
  "\<forall>kv\<in>set (ignored_bases_dict names). snd kv"
  "fst ` set (ignored_bases_dict names) = set names"
  using ignored_bases_fold [of "[]" names] by (simp_all add: ignored_bases_dict_def)

lemma pop_ignored_bases_left:
  "snd (pop_ignored_bases bases d) = filter (\<lambda>kv. fst kv \<notin> base_class ` set bases) d"
proof (induction bases arbitrary: d)
  case Nil
  show ?case by simp
next
  case (Cons b bases)
  have "filter (\<lambda>kv. fst kv \<notin> base_class ` set bases) (AList.delete (base_class b) d)
      = filter (\<lambda>kv. fst kv \<notin> base_class ` set (b # bases)) d"
    by (induction d) (auto simp: AList.delete_eq)
  moreover obtain kept left where
    pop: "pop_ignored_bases bases (AList.delete (base_class b) d) = (kept, left)"
    by (metis surj_pair)
  moreover from Cons.IH [of "AList.delete (base_class b) d"] pop have
    "left = filter (\<lambda>kv. fst kv \<notin> base_class ` set bases) (AList.delete (base_class b) d)"
    by simp
  ultimately show ?case
    by (simp add: Let_def)
qed

lemma map_of_all_True:
  "\<forall>kv\<in>set d. snd kv \<Longrightarrow> (map_of d k = Some True) = (k \<in> fst ` set d)"
  by (induction d) auto

lemma pop_ignored_bases_kept:
  "distinct (map base_class bases) \<Longrightarrow> \<forall>kv\<in>set d. snd kv \<Longrightarrow>
   fst (pop_ignored_bases bases d) = filter (\<lambda>b. base_class b \<notin> fst ` set d) bases"
proof (induction bases arbitrary: d)
  case Nil
  show ?case by simp
next
  case (Cons b bases)
  let ?d' = "AList.delete (base_class b) d"
  have keys: "fst ` set ?d' = fst ` set d - {base_class b}"
    by (induction d) (auto simp: AList.delete_eq)
  have vals: "\<forall>kv\<in>set ?d'. snd kv"
    using Cons.prems(2) by (auto simp: AList.delete_eq)
  from Cons.prems(1) have dist: "distinct (map base_class bases)"
    and notin: "base_class b \<notin> base_class ` set bases" by simp_all
  have fresh: "\<forall>b'\<in>set bases. base_class b' \<noteq> base_class b"
  proof
    fix b' assume "b' \<in> set bases"
    then have "base_class b' \<in> base_class ` set bases" by (rule imageI)
    with notin show "base_class b' \<noteq> base_class b" by auto
  qed
  from Cons.IH [OF dist vals] have
    "fst (pop_ignored_bases bases ?d') = filter (\<lambda>b'. base_class b' \<notin> fst ` set ?d') bases" .
  also have "\<dots> = filter (\<lambda>b'. base_class b' \<notin> fst ` set d) bases"
    using fresh by (intro filter_cong) (auto simp: keys)
  finally have rest: "fst (pop_ignored_bases bases ?d')
      = filter (\<lambda>b'. base_class b' \<notin> fst ` set d) bases" .
  obtain kept left where
    pop: "pop_ignored_bases bases ?d' = (kept, left)"
    by (metis surj_pair)
  with rest have kept: "kept = filter (\<lambda>b'. base_class b' \<notin> fst ` set d) bases" by simp
  show ?case
    using kept pop map_of_all_True [OF Cons.prems(2), of "base_class b"]
    by (simp add: Let_def)
qed

text \<open>
  Lines 480 to 493: the hook raises exactly when some ignored name is not a declared
  base, and the message lists those names (each once) and the declared bases; otherwise
  \<open>x_inherits\<close> is what is left of the bases.
\<close>

lemma class_x_inherits_cases:
  fixes name class_data inherits
  defines "declared \<equiv> map base_class inherits"
  defines "ignored \<equiv> cd_ignored_bases class_data"
  shows "(\<exists>ib\<in>set ignored. ib \<notin> set declared) \<Longrightarrow>
      \<exists>invalid. distinct invalid \<and> set invalid = set ignored - set declared
        \<and> class_x_inherits name class_data inherits =
            Inl (ValueError (name @ '': ignored_bases contains non-existant bases ''
                   @ join '', '' invalid @ ''; valid bases are '' @ join '', '' declared))"
    and "\<not> (\<exists>ib\<in>set ignored. ib \<notin> set declared) \<Longrightarrow>
      \<exists>x_inherits. class_x_inherits name class_data inherits = Inr x_inherits
        \<and> (distinct declared \<longrightarrow>
             x_inherits = filter (\<lambda>b. base_class b \<notin> set ignored) inherits)"
proof -
  let ?d = "ignored_bases_dict ignored"
  obtain kept left where pop: "pop_ignored_bases inherits ?d = (kept, left)"
    by (metis surj_pair)
  note props = ignored_bases_dict_props [of ignored]
  from pop_ignored_bases_left [of inherits ?d] pop
  have left: "left = filter (\<lambda>kv. fst kv \<notin> set declared) ?d"
    by (simp add: declared_def)
  have dist: "distinct (map fst left)"
    unfolding left using props(1) by (simp add: distinct_map_filter)
  have keys: "set (map fst left) = set ignored - set declared"
    unfolding left using props(3) by auto
  have unfold: "class_x_inherits name class_data inherits =
      (if left \<noteq> [] then
         Inl (ValueError (name @ '': ignored_bases contains non-existant bases ''
                @ join '', '' (map fst left) @ ''; valid bases are '' @ join '', '' declared))
       else Inr kept)"
    using pop by (simp add: class_x_inherits_def Let_def ignored_def declared_def)
  {
    assume "\<exists>ib\<in>set ignored. ib \<notin> set declared"
    with keys have "left \<noteq> []" by auto
    with unfold dist keys
    show "\<exists>invalid. distinct invalid \<and> set invalid = set ignored - set declared
        \<and> class_x_inherits name class_data inherits =
            Inl (ValueError (name @ '': ignored_bases contains non-existant bases ''
                   @ join '', '' invalid @ ''; valid bases are '' @ join '', '' declared))"
      by (intro exI [of _ "map fst left"]) simp
  }
  {
    assume "\<not> (\<exists>ib\<in>set ignored. ib \<notin> set declared)"
    with keys have "fst ` set left = {}" by auto
    then have empty: "left = []" by simp
    have "distinct declared \<Longrightarrow> kept = filter (\<lambda>b. base_class b \<notin> set ignored) inherits"
      using pop_ignored_bases_kept [of inherits ?d] props(2,3) pop
      by (simp add: declared_def)
    with unfold empty
    show "\<exists>x_inherits. class_x_inherits name class_data inherits = Inr x_inherits
        \<and> (distinct declared \<longrightarrow>
             x_inherits = filter (\<lambda>b. base_class b \<notin> set ignored) inherits)"
      by simp
  }
qed

lemma base_qualify_class: "base_class (base_qualify class_data namespace base) = base_class base"
  by (simp add: base_qualify_def Let_def split: option.splits)

lemma class_enums_loop_error:
  "class_enums_loop h gendata name cls_key class_data es = Inl e \<Longrightarrow> e = IndexError"
proof (induction es)
  case Nil
  then show ?case by simp
next
  case (Cons en es)
  then show ?case
    by (auto simp: Let_def enum_hook_def split: sum.splits dest: enum_values_loop_error)
qed

subsection \<open>The whole hook\<close>

text \<open>\<open>class_hook\<close> on a class that is neither nested in a private section nor ignored.\<close>

lemma class_hook_processed:
  fixes gendata h cls
  defines "cd \<equiv> get_class_data gendata (class_key cls)"
  defines "sub \<equiv> add_subpackage h (cd_subpackage cd)"
  assumes np: "\<not> (cls_parent_names cls \<noteq> [] \<and> cls_access_in_parent cls = ''private'')"
    and ni: "\<not> cd_ignore cd"
  shows "class_hook gendata h cls =
     (case class_enums_loop (fst sub) gendata (cls_name cls) (class_key cls) cd
             (cls_enums_public cls) of
        Inl e \<Rightarrow> Inl e
      | Inr enums \<Rightarrow>
          (case class_x_inherits (cls_name cls) cd
                  (map (base_qualify cd (cls_namespace cls)) (cls_inherits cls)) of
             Inl e \<Rightarrow> Inl e
           | Inr x_inherits \<Rightarrow>
               class_finish gendata (fst sub)
                 (cls\<lparr>cls_data := Some cd, cls_x_module_var := Some (snd sub),
                      cls_enums_public := enums,
                      cls_inherits := map (base_qualify cd (cls_namespace cls))
                                          (cls_inherits cls)\<rparr>)
                 (class_key cls) cd x_inherits))"
  using np ni
  by (auto simp: class_hook_def Let_def case_prod_beta cd_def sub_def split: sum.splits)

lemma add_subpackage_class_hierarchy:
  "class_hierarchy (fst (add_subpackage h sp)) = class_hierarchy h"
  by (simp add: add_subpackage_def Let_def split: option.splits)

text \<open>
  Claim C1. For a class that \<open>class_hook\<close> processes to the end, \<open>x_has_trampoline\<close> is:
  polymorphic, not final and not \<open>force_no_trampoline\<close>, where polymorphic holds exactly
  when the override says so, or the class has a declared base, or one of its methods, of
  any access, is marked virtual or override.
\<close>

theorem class_hook_trampoline:
  fixes gendata h cls
  defines "cd \<equiv> get_class_data gendata (class_key cls)"
  assumes run: "class_hook gendata h cls = Inr (h', cls')"
    and np: "\<not> (cls_parent_names cls \<noteq> [] \<and> cls_access_in_parent cls = ''private'')"
    and ni: "\<not> cd_ignore cd"
  shows "\<exists>x. cls_x cls' = Some x
     \<and> cls_x_has_trampoline x =
         ((cd_is_polymorphic cd \<or> cls_inherits cls \<noteq> []
           \<or> (\<exists>fn\<in>set (cls_methods_public cls @ cls_methods_protected cls
                         @ cls_methods_private cls). fn_override fn \<or> fn_virtual fn))
          \<and> \<not> cls_final cls \<and> \<not> cd_force_no_trampoline cd)"
proof -
  note unfold = class_hook_processed [OF np ni [unfolded cd_def], folded cd_def]
  from run [unfolded unfold] obtain enums x_inherits where
    fin: "class_finish gendata (fst (add_subpackage h (cd_subpackage cd)))
            (cls\<lparr>cls_data := Some cd,
                 cls_x_module_var := Some (snd (add_subpackage h (cd_subpackage cd))),
                 cls_enums_public := enums,
                 cls_inherits := map (base_qualify cd (cls_namespace cls)) (cls_inherits cls)\<rparr>)
            (class_key cls) cd x_inherits = Inr (h', cls')"
    by (auto split: sum.splits)
  from class_finish_returns [OF fin] show ?thesis by auto
qed

theorem class_hook_trampoline_witness:
  "computed_trampoline (class_hook (gendata_of ClassData_default) hooks_demo Derived) = Some True"
proof -
  let ?r = "class_hook (gendata_of ClassData_default) hooks_demo Derived"
  have ev: "computed_trampoline ?r = Some True" by code_simp
  then obtain h' cls' where run: "?r = Inr (h', cls')"
    by (cases ?r) (auto simp: computed_trampoline_def)
  have np: "\<not> (cls_parent_names Derived \<noteq> [] \<and> cls_access_in_parent Derived = ''private'')"
    by (simp add: Derived_def class_of_def)
  have ni: "\<not> cd_ignore (get_class_data (gendata_of ClassData_default) (class_key Derived))"
    by (simp add: gendata_of_def ClassData_default_def)
  from class_hook_trampoline [OF run np ni] obtain x where
    "cls_x cls' = Some x" "cls_x_has_trampoline x"
    by (auto simp: Derived_def class_of_def gendata_of_def ClassData_default_def)
  with run show ?thesis by (simp add: computed_trampoline_def)
qed

text \<open>
  The pop of line 485 takes a name out of the dictionary once: of a base that is
  declared twice only the first is left out. (A C++ class cannot have the same direct
  base twice.)
\<close>

lemma class_x_inherits_repeated_base:
  "class_x_inherits ''D'' (ClassData_default\<lparr>cd_ignored_bases := [''A'']\<rparr>)
     [\<lparr>base_class = ''A'', base_x_qualname = ''ns::A'', base_x_qualname_u = ''ns__A''\<rparr>,
      \<lparr>base_class = ''A'', base_x_qualname = ''ns::A'', base_x_qualname_u = ''ns__A''\<rparr>]
   = Inr [\<lparr>base_class = ''A'', base_x_qualname = ''ns::A'', base_x_qualname_u = ''ns__A''\<rparr>]"
  by code_simp

text \<open>
  Claim C6, as amended. For a class that \<open>class_hook\<close> does not skip and whose public
  enums have all passed \<open>_enum_hook\<close> (the loop of lines 459 to 466, which runs before
  the bases are looked at): when some name of \<open>ignored_bases\<close> is not the name of a
  declared base, the hook raises the \<open>ValueError\<close> whose message lists exactly those
  names and the declared bases; and when the hook returns, every ignored name is a
  declared base, \<open>x_inherits\<close> is (the names of the declared bases being distinct) the
  declared bases without the ignored ones, and the entry of the class in the hierarchy
  is the qualified names of \<open>x_inherits\<close> followed by \<open>force_depends\<close>.
\<close>

theorem class_hook_ignored_bases:
  fixes gendata h cls
  defines "cd \<equiv> get_class_data gendata (class_key cls)"
  assumes np: "\<not> (cls_parent_names cls \<noteq> [] \<and> cls_access_in_parent cls = ''private'')"
    and ni: "\<not> cd_ignore cd"
    and enums: "class_enums_loop (fst (add_subpackage h (cd_subpackage cd))) gendata
        (cls_name cls) (class_key cls) cd (cls_enums_public cls) = Inr enums"
  shows "((\<exists>ib\<in>set (cd_ignored_bases cd). ib \<notin> set (map base_class (cls_inherits cls))) \<longrightarrow>
           (\<exists>invalid. distinct invalid
              \<and> set invalid = set (cd_ignored_bases cd) - set (map base_class (cls_inherits cls))
              \<and> class_hook gendata h cls =
                   Inl (ValueError (cls_name cls
                          @ '': ignored_bases contains non-existant bases ''
                          @ join '', '' invalid @ ''; valid bases are ''
                          @ join '', '' (map base_class (cls_inherits cls))))))
     \<and> (\<forall>h' cls'. class_hook gendata h cls = Inr (h', cls') \<longrightarrow>
          set (cd_ignored_bases cd) \<subseteq> set (map base_class (cls_inherits cls))
          \<and> (\<exists>x. cls_x cls' = Some x
               \<and> (distinct (map base_class (cls_inherits cls)) \<longrightarrow>
                    cls_x_inherits x =
                      filter (\<lambda>b. base_class b \<notin> set (cd_ignored_bases cd))
                        (map (base_qualify cd (cls_namespace cls)) (cls_inherits cls)))
               \<and> map_of (class_hierarchy h') (cls_namespace cls @ ''::'' @ cls_name cls) =
                   Some (map base_x_qualname (cls_x_inherits x) @ cd_force_depends cd)))"
proof -
  let ?inherits = "map (base_qualify cd (cls_namespace cls)) (cls_inherits cls)"
  let ?h1 = "fst (add_subpackage h (cd_subpackage cd))"
  note unfold = class_hook_processed [OF np ni [unfolded cd_def], folded cd_def]
  have declared: "map base_class ?inherits = map base_class (cls_inherits cls)"
    by (simp add: base_qualify_class)
  note stage = class_x_inherits_cases [of cd ?inherits "cls_name cls", unfolded declared]
  have raises: "\<exists>invalid. distinct invalid
        \<and> set invalid = set (cd_ignored_bases cd) - set (map base_class (cls_inherits cls))
        \<and> class_hook gendata h cls =
             Inl (ValueError (cls_name cls @ '': ignored_bases contains non-existant bases ''
                    @ join '', '' invalid @ ''; valid bases are ''
                    @ join '', '' (map base_class (cls_inherits cls))))"
    if bad: "\<exists>ib\<in>set (cd_ignored_bases cd). ib \<notin> set (map base_class (cls_inherits cls))"
  proof -
    from stage(1) [OF bad] obtain invalid where
      inv: "distinct invalid"
        "set invalid = set (cd_ignored_bases cd) - set (map base_class (cls_inherits cls))"
        "class_x_inherits (cls_name cls) cd ?inherits =
           Inl (ValueError (cls_name cls @ '': ignored_bases contains non-existant bases ''
                  @ join '', '' invalid @ ''; valid bases are ''
                  @ join '', '' (map base_class (cls_inherits cls))))"
      by blast
    from enums inv(3) have "class_hook gendata h cls =
         Inl (ValueError (cls_name cls @ '': ignored_bases contains non-existant bases ''
                @ join '', '' invalid @ ''; valid bases are ''
                @ join '', '' (map base_class (cls_inherits cls))))"
      by (simp add: unfold)
    with inv(1,2) show ?thesis by blast
  qed
  have returns: "set (cd_ignored_bases cd) \<subseteq> set (map base_class (cls_inherits cls))
          \<and> (\<exists>x. cls_x cls' = Some x
               \<and> (distinct (map base_class (cls_inherits cls)) \<longrightarrow>
                    cls_x_inherits x =
                      filter (\<lambda>b. base_class b \<notin> set (cd_ignored_bases cd)) ?inherits)
               \<and> map_of (class_hierarchy h') (cls_namespace cls @ ''::'' @ cls_name cls) =
                   Some (map base_x_qualname (cls_x_inherits x) @ cd_force_depends cd))"
    if run: "class_hook gendata h cls = Inr (h', cls')" for h' cls'
  proof -
    from run [unfolded unfold] obtain enums' x_inherits where
      xi: "class_x_inherits (cls_name cls) cd ?inherits = Inr x_inherits"
      and fin: "class_finish gendata ?h1
            (cls\<lparr>cls_data := Some cd,
                 cls_x_module_var := Some (snd (add_subpackage h (cd_subpackage cd))),
                 cls_enums_public := enums', cls_inherits := ?inherits\<rparr>)
            (class_key cls) cd x_inherits = Inr (h', cls')"
      by (auto split: sum.splits)
    have good: "\<not> (\<exists>ib\<in>set (cd_ignored_bases cd). ib \<notin> set (map base_class (cls_inherits cls)))"
    proof
      assume "\<exists>ib\<in>set (cd_ignored_bases cd). ib \<notin> set (map base_class (cls_inherits cls))"
      from stage(1) [OF this] xi show False by auto
    qed
    from stage(2) [OF good] xi have kept:
      "distinct (map base_class (cls_inherits cls)) \<longrightarrow>
         x_inherits = filter (\<lambda>b. base_class b \<notin> set (cd_ignored_bases cd)) ?inherits"
      by auto
    from class_finish_returns [OF fin] obtain x where
      x: "cls_x cls' = Some x" "cls_x_inherits x = x_inherits"
        "class_hierarchy h' =
           AList.update (cls_namespace cls @ ''::'' @ cls_name cls)
             (map base_x_qualname x_inherits @ cd_force_depends cd) (class_hierarchy ?h1)"
      by auto
    have "map_of (class_hierarchy h') (cls_namespace cls @ ''::'' @ cls_name cls) =
        Some (map base_x_qualname (cls_x_inherits x) @ cd_force_depends cd)"
      unfolding x(3) x(2) by (simp add: update_conv')
    with good kept x(1,2) show ?thesis by auto
  qed
  from raises returns show ?thesis by blast
qed

theorem class_hook_ignored_bases_witness:
  "class_hook (gendata_of (ClassData_default\<lparr>cd_ignored_bases := [''Other'', ''Mixin'']\<rparr>))
     hooks_demo Panel =
     Inl (ValueError
       ''Panel: ignored_bases contains non-existant bases Other; valid bases are Base, Mixin'')
   \<and> computed_bases
       (class_hook (gendata_of (ClassData_default\<lparr>cd_ignored_bases := [''Mixin'']\<rparr>)) hooks_demo
          Panel) = Some [''Base'']
   \<and> hierarchy_entry
       (class_hook (gendata_of (ClassData_default\<lparr>cd_ignored_bases := [''Mixin'']\<rparr>)) hooks_demo
          Panel) ''ns::Panel'' = Some [''ns::Base'']"
proof -
  let ?bad = "ClassData_default\<lparr>cd_ignored_bases := [''Other'', ''Mixin'']\<rparr>"
  let ?good = "ClassData_default\<lparr>cd_ignored_bases := [''Mixin'']\<rparr>"
  have np: "\<not> (cls_parent_names Panel \<noteq> [] \<and> cls_access_in_parent Panel = ''private'')"
    by (simp add: Panel_def class_of_def)
  have cd: "get_class_data (gendata_of ?bad) (class_key Panel) = ?bad"
    "get_class_data (gendata_of ?good) (class_key Panel) = ?good"
    by (simp_all add: gendata_of_def)
  have ni: "\<not> cd_ignore (get_class_data (gendata_of ?bad) (class_key Panel))"
    "\<not> cd_ignore (get_class_data (gendata_of ?good) (class_key Panel))"
    by (simp_all add: gendata_of_def ClassData_default_def)
  have "\<not> isl (class_enums_loop (fst (add_subpackage hooks_demo (cd_subpackage ?bad)))
      (gendata_of ?bad) (cls_name Panel) (class_key Panel) ?bad (cls_enums_public Panel))"
    by code_simp
  then obtain enums_bad where enums_bad:
    "class_enums_loop
       (fst (add_subpackage hooks_demo
          (cd_subpackage (get_class_data (gendata_of ?bad) (class_key Panel)))))
       (gendata_of ?bad) (cls_name Panel) (class_key Panel)
       (get_class_data (gendata_of ?bad) (class_key Panel)) (cls_enums_public Panel)
     = Inr enums_bad"
    unfolding cd by (auto simp: isl_def) (metis sum.exhaust)
  have "\<not> isl (class_enums_loop (fst (add_subpackage hooks_demo (cd_subpackage ?good)))
      (gendata_of ?good) (cls_name Panel) (class_key Panel) ?good (cls_enums_public Panel))"
    by code_simp
  then obtain enums_good where enums_good:
    "class_enums_loop
       (fst (add_subpackage hooks_demo
          (cd_subpackage (get_class_data (gendata_of ?good) (class_key Panel)))))
       (gendata_of ?good) (cls_name Panel) (class_key Panel)
       (get_class_data (gendata_of ?good) (class_key Panel)) (cls_enums_public Panel)
     = Inr enums_good"
    unfolding cd by (auto simp: isl_def) (metis sum.exhaust)
  have declared: "map base_class (cls_inherits Panel) = [''Base'', ''Mixin'']"
    by (simp add: Panel_def class_of_def)
  have name: "cls_name Panel = ''Panel''" "cls_namespace Panel = ''ns''"
    by (simp_all add: Panel_def class_of_def)
  have ign: "cd_ignored_bases ?bad = [''Other'', ''Mixin'']" "cd_ignored_bases ?good = [''Mixin'']"
    "cd_force_depends ?good = []"
    by (simp_all add: ClassData_default_def)
  from class_hook_ignored_bases [OF np ni(1) enums_bad] obtain invalid where
    inv: "distinct invalid" "set invalid = {''Other''}"
      "class_hook (gendata_of ?bad) hooks_demo Panel =
         Inl (ValueError (''Panel: ignored_bases contains non-existant bases ''
                @ join '', '' invalid @ ''; valid bases are '' @ join '', '' [''Base'', ''Mixin'']))"
    unfolding cd declared name ign by auto
  have "invalid = [''Other'']"
  proof (cases invalid)
    case Nil
    with inv(2) show ?thesis by simp
  next
    case (Cons a rest)
    with inv(1,2) have "a = ''Other''" "set rest \<subseteq> {''Other''}" "''Other'' \<notin> set rest"
      by auto
    then have "rest = []" by (cases rest) auto
    with Cons \<open>a = ''Other''\<close> show ?thesis by simp
  qed
  with inv(3) have a: "class_hook (gendata_of ?bad) hooks_demo Panel =
     Inl (ValueError
       ''Panel: ignored_bases contains non-existant bases Other; valid bases are Base, Mixin'')"
    by simp
  have "\<not> isl (class_hook (gendata_of ?good) hooks_demo Panel)" by code_simp
  then obtain h' cls' where run: "class_hook (gendata_of ?good) hooks_demo Panel = Inr (h', cls')"
    by (auto simp: isl_def) (metis sum.exhaust surj_pair)
  from class_hook_ignored_bases [OF np ni(2) enums_good] run obtain x where
    x: "cls_x cls' = Some x"
      "cls_x_inherits x = filter (\<lambda>b. base_class b \<notin> {''Mixin''})
         (map (base_qualify ?good ''ns'') (cls_inherits Panel))"
      "map_of (class_hierarchy h') ''ns::Panel'' = Some (map base_x_qualname (cls_x_inherits x))"
    unfolding cd declared name ign by auto
  have q: "map (base_qualify ?good ''ns'') (cls_inherits Panel) =
      [\<lparr>base_class = ''Base'', base_x_qualname = ''ns::Base'', base_x_qualname_u = ''ns__Base''\<rparr>,
       \<lparr>base_class = ''Mixin'', base_x_qualname = ''ns::Mixin'',
        base_x_qualname_u = ''ns__Mixin''\<rparr>]"
    by code_simp
  from x run show ?thesis
    using a by (simp add: q computed_bases_def hierarchy_entry_def)
qed

text \<open>
  Claim C6 as stated fails at \<open>class Panel : public Base, public Mixin\<close> with
  \<open>ignored_bases\<close> set to \<open>Mixin\<close> and \<open>force_depends\<close> to \<open>ns::Extra\<close>: the declared bases
  without the ignored ones are \<open>Base\<close> alone, and the entry in the hierarchy is \<open>ns::Base\<close>
  followed by \<open>ns::Extra\<close>.
\<close>

theorem class_hierarchy_entry_has_force_depends:
  "computed_bases
     (class_hook (gendata_of (ClassData_default\<lparr>cd_ignored_bases := [''Mixin''],
                                               cd_force_depends := [''ns::Extra'']\<rparr>))
        hooks_demo Panel) = Some [''Base'']
   \<and> hierarchy_entry
       (class_hook (gendata_of (ClassData_default\<lparr>cd_ignored_bases := [''Mixin''],
                                                 cd_force_depends := [''ns::Extra'']\<rparr>))
          hooks_demo Panel) ''ns::Panel'' = Some [''ns::Base'', ''ns::Extra'']"
  by code_simp

end
